theory Spec2Isabelle
  imports Main
begin

section \<open>Python values used by the research agent\<close>

text \<open>
  The agent of \<^verbatim>\<open>backend/services/research_agent.py\<close> is embedded function by
  function; a method keeps its name, without the leading underscore.  Exceptions are
  values: a function that can raise returns \<open>exn + 'a\<close>, with \<open>Inl\<close> for the exception.
  Only subclasses of Python's \<^verbatim>\<open>Exception\<close> are modelled (these are what
  \<^verbatim>\<open>except Exception\<close> and the bare \<^verbatim>\<open>except\<close> clauses of the source are written
  for).
\<close>

datatype exn =
    KeyError string
  | IndexError
  | TypeError
  | AttributeError
  | ZeroDivisionError
  | JSONDecodeError
  | ExternalError string

text \<open>
  A search result is a \<^verbatim>\<open>Dict[str, Any]\<close> whose values are all strings; a dictionary is a
  map.  A string is a list of characters, and a character is a code point below 256, so
  the strings of the model are the Python strings of that range.  On them every operation
  below is Python's: \<open>is_space\<close> holds of the twelve such code points of which
  \<^verbatim>\<open>str.isspace\<close> holds, and \<open>lower\<close> maps the 56 such code points that
  \<^verbatim>\<open>str.lower\<close> changes.
\<close>

type_synonym result = "string \<rightharpoonup> string"

subsection \<open>String operations\<close>

text \<open>\<^verbatim>\<open>s.startswith(p)\<close>\<close>

fun startswith :: "string \<Rightarrow> string \<Rightarrow> bool" where
  "startswith s [] = True"
| "startswith [] (p # ps) = False"
| "startswith (c # cs) (p # ps) = (c = p \<and> startswith cs ps)"

text \<open>\<^verbatim>\<open>sub in s\<close>\<close>

fun py_in :: "string \<Rightarrow> string \<Rightarrow> bool" where
  "py_in sub [] = (sub = [])"
| "py_in sub (c # cs) = (startswith (c # cs) sub \<or> py_in sub cs)"

text \<open>
  \<^verbatim>\<open>s.lower()\<close>: the letters \<^verbatim>\<open>A\<close> to \<^verbatim>\<open>Z\<close> and the upper-case letters from
  \<^verbatim>\<open>U+00C0\<close> to \<^verbatim>\<open>U+00DE\<close> (the multiplication sign \<^verbatim>\<open>U+00D7\<close> is not one) go to the
  code point 32 above; every other character stays.
\<close>

definition upper_letters :: string where
  "upper_letters =
     ''ABCDEFGHIJKLMNOPQRSTUVWXYZ'' @
       [CHR 0xC0, CHR 0xC1, CHR 0xC2, CHR 0xC3, CHR 0xC4, CHR 0xC5, CHR 0xC6, CHR 0xC7,
        CHR 0xC8, CHR 0xC9, CHR 0xCA, CHR 0xCB, CHR 0xCC, CHR 0xCD, CHR 0xCE, CHR 0xCF,
        CHR 0xD0, CHR 0xD1, CHR 0xD2, CHR 0xD3, CHR 0xD4, CHR 0xD5, CHR 0xD6, CHR 0xD8,
        CHR 0xD9, CHR 0xDA, CHR 0xDB, CHR 0xDC, CHR 0xDD, CHR 0xDE]"

definition lower_letters :: string where
  "lower_letters =
     ''abcdefghijklmnopqrstuvwxyz'' @
       [CHR 0xE0, CHR 0xE1, CHR 0xE2, CHR 0xE3, CHR 0xE4, CHR 0xE5, CHR 0xE6, CHR 0xE7,
        CHR 0xE8, CHR 0xE9, CHR 0xEA, CHR 0xEB, CHR 0xEC, CHR 0xED, CHR 0xEE, CHR 0xEF,
        CHR 0xF0, CHR 0xF1, CHR 0xF2, CHR 0xF3, CHR 0xF4, CHR 0xF5, CHR 0xF6, CHR 0xF8,
        CHR 0xF9, CHR 0xFA, CHR 0xFB, CHR 0xFC, CHR 0xFD, CHR 0xFE]"

definition lower_char :: "char \<Rightarrow> char" where
  "lower_char c =
     (case map_of (zip upper_letters lower_letters) c of
        Some l \<Rightarrow> l
      | None \<Rightarrow> c)"

definition lower :: "string \<Rightarrow> string" where
  "lower s = map lower_char s"

text \<open>\<^verbatim>\<open>s.split('/')\<close>: the pieces between the separators, never an empty list.\<close>

fun split :: "char \<Rightarrow> string \<Rightarrow> string list" where
  "split sep [] = [[]]"
| "split sep (c # cs) =
     (if c = sep then [] # split sep cs
      else (case split sep cs of
              [] \<Rightarrow> [[c]]
            | p # ps \<Rightarrow> (c # p) # ps))"

text \<open>\<^verbatim>\<open>str(n)\<close> for an integer, in decimal.\<close>

definition digit_char :: "nat \<Rightarrow> char" where
  "digit_char d = ''0123456789'' ! (d mod 10)"

fun str_nat :: "nat \<Rightarrow> string" where
  "str_nat n = (if n < 10 then [digit_char n] else str_nat (n div 10) @ [digit_char (n mod 10)])"

declare str_nat.simps [simp del]

definition str_int :: "int \<Rightarrow> string" where
  "str_int i = (if i < 0 then ''-'' @ str_nat (nat (- i)) else str_nat (nat i))"

text \<open>
  \<^verbatim>\<open>s.strip()\<close>: white space removed at both ends.  White space is what
  \<^verbatim>\<open>str.isspace\<close> accepts: the controls \<^verbatim>\<open>U+0009\<close> to \<^verbatim>\<open>U+000D\<close> and \<^verbatim>\<open>U+001C\<close> to
  \<^verbatim>\<open>U+001F\<close>, the space, the next-line control \<^verbatim>\<open>U+0085\<close> and the no-break space
  \<^verbatim>\<open>U+00A0\<close>.
\<close>

definition is_space :: "char \<Rightarrow> bool" where
  "is_space c =
     (c \<in> set [CHR 0x09, CHR 0x0A, CHR 0x0B, CHR 0x0C, CHR 0x0D,
                CHR 0x1C, CHR 0x1D, CHR 0x1E, CHR 0x1F, CHR 0x20,
                CHR 0x85, CHR 0xA0])"

definition strip :: "string \<Rightarrow> string" where
  "strip s = rev (dropWhile is_space (rev (dropWhile is_space s)))"

text \<open>
  \<^verbatim>\<open>s.replace(old, new)\<close>: every occurrence of \<open>old\<close>, left to right and without
  overlap; an empty \<open>old\<close> matches before every character and at the end.
\<close>

function replace :: "string \<Rightarrow> string \<Rightarrow> string \<Rightarrow> string" where
  "replace [] old new = (if old = [] then new else [])"
| "replace (c # cs) old new =
     (if old = [] then new @ c # replace cs old new
      else if startswith (c # cs) old then new @ replace (drop (length old) (c # cs)) old new
      else c # replace cs old new)"
  by pat_completeness auto
termination
  by (relation "measure (\<lambda>(s, old, new). length s)") auto

subsection \<open>List operations\<close>

text \<open>\<^verbatim>\<open>xs[:n]\<close>: a negative bound counts from the end.\<close>

definition slice_to :: "'a list \<Rightarrow> int \<Rightarrow> 'a list" where
  "slice_to xs n =
     (if n < 0 then take (nat (int (length xs) + n)) xs else take (nat n) xs)"

text \<open>\<^verbatim>\<open>range(n)\<close>: empty for \<open>n \<le> 0\<close>.\<close>

definition range :: "int \<Rightarrow> nat list" where
  "range n = [0 ..< nat n]"

text \<open>Running a step that may raise over a list, stopping at the first exception.\<close>

fun for_each :: "('a \<Rightarrow> exn + 'b) \<Rightarrow> 'a list \<Rightarrow> exn + 'b list" where
  "for_each f [] = Inr []"
| "for_each f (x # xs) =
     (case f x of
        Inl e \<Rightarrow> Inl e
      | Inr y \<Rightarrow> (case for_each f xs of Inl e \<Rightarrow> Inl e | Inr ys \<Rightarrow> Inr (y # ys)))"

section \<open>The mock result generator\<close>

text \<open>
  The dictionary \<^verbatim>\<open>topics\<close> of \<^verbatim>\<open>_generate_mock_results\<close>, in its insertion order
  (the order in which \<^verbatim>\<open>topics.items()\<close> yields it).  The canned records have no
  \<^verbatim>\<open>link\<close> and no \<^verbatim>\<open>query\<close> key.
\<close>

definition canned :: "string \<Rightarrow> string \<Rightarrow> string \<Rightarrow> result" where
  "canned t s sn = [''title'' \<mapsto> t, ''source'' \<mapsto> s, ''snippet'' \<mapsto> sn]"

definition climate_results :: "result list" where
  "climate_results =
     [canned ''Climate Change Overview - EPA'' ''epa.gov''
        ''Climate change refers to long-term shifts in global temperatures and weather patterns.'',
      canned ''Global Warming Facts - NASA'' ''nasa.gov''
        ''Scientific evidence shows that human activities are the primary cause of recent climate change.'',
      canned ''Climate Change Impacts - IPCC'' ''ipcc.ch''
        ''Climate change affects ecosystems, human health, and economic systems worldwide.'']"

definition ai_results :: "result list" where
  "ai_results =
     [canned ''What is Artificial Intelligence? - MIT'' ''mit.edu''
        ''AI is the simulation of human intelligence processes by machines and computer systems.'',
      canned ''Machine Learning Basics - Stanford'' ''stanford.edu''
        ''Machine learning is a subset of AI that enables computers to learn from data.'',
      canned ''AI Applications - IEEE'' ''ieee.org''
        ''AI applications span across healthcare, finance, transportation, and entertainment.'']"

definition economic_results :: "result list" where
  "economic_results =
     [canned ''Economic Principles - World Bank'' ''worldbank.org''
        ''Economic analysis examines how societies allocate scarce resources.'',
      canned ''Global Economic Trends - IMF'' ''imf.org''
        ''Current economic indicators show varying growth patterns across regions.'',
      canned ''Economic Policy Impact - OECD'' ''oecd.org''
        ''Economic policies significantly influence market dynamics and social outcomes.'']"

definition topics :: "(string \<times> result list) list" where
  "topics =
     [(''climate change'', climate_results),
      (''artificial intelligence'', ai_results),
      (''economic'', economic_results)]"

text \<open>
  The loop \<^verbatim>\<open>for topic, results in topics.items(): if topic in query_lower: ... break\<close>;
  \<open>None\<close> when no topic matches.
\<close>

fun find_topic :: "(string \<times> result list) list \<Rightarrow> string \<Rightarrow> result list option" where
  "find_topic [] query_lower = None"
| "find_topic ((topic, results) # ts) query_lower =
     (if py_in topic query_lower then Some results else find_topic ts query_lower)"

text \<open>The record appended by the body of \<^verbatim>\<open>for i in range(max_results)\<close>.\<close>

definition generic_result :: "string \<Rightarrow> nat \<Rightarrow> result" where
  "generic_result query i =
     [''title'' \<mapsto> ''Research Result '' @ str_int (int i + 1) @ '': '' @ query,
      ''link'' \<mapsto> ''https://example.com/research-'' @ str_int (int i + 1),
      ''snippet'' \<mapsto> ''This is a research finding related to '' @ query
          @ ''. The information provides insights and analysis on the topic.'',
      ''source'' \<mapsto> ''research-source-'' @ str_int (int i + 1) @ ''.com'',
      ''query'' \<mapsto> query]"

text \<open>
  The body of the final loop \<^verbatim>\<open>for result in mock_results\<close>: the query is stored, and a
  record without a link gets one made of its source (a \<^verbatim>\<open>KeyError\<close> if it has no source
  either).
\<close>

definition ensure_format :: "string \<Rightarrow> result \<Rightarrow> exn + result" where
  "ensure_format query r =
     (let r1 = r(''query'' \<mapsto> query) in
      if ''link'' \<in> dom r1 then Inr r1
      else (case r1 ''source'' of
              None \<Rightarrow> Inl (KeyError ''source'')
            | Some s \<Rightarrow> Inr (r1(''link'' \<mapsto> ''https://'' @ s))))"

definition generate_mock_results :: "string \<Rightarrow> int \<Rightarrow> exn + result list" where
  "generate_mock_results query max_results =
     (let query_lower = lower query;
          relevant_topic = find_topic topics query_lower;
          mock_results =
            (case relevant_topic of
               Some rs \<Rightarrow>
                 if rs \<noteq> [] then slice_to rs max_results
                 else map (generic_result query) (range max_results)
             | None \<Rightarrow> map (generic_result query) (range max_results))
      in for_each (ensure_format query) mock_results)"

section \<open>The web search client\<close>

text \<open>
  What the HTML parser hands to the source: an element with its text and its
  \<^verbatim>\<open>href\<close> attribute, if it has one.
\<close>

record tag =
  get_text :: string
  href :: "string option"

text \<open>
  A \<^verbatim>\<open>div\<close> of class \<^verbatim>\<open>result\<close> on the DuckDuckGo page, seen through the two lookups
  the source makes in it (\<open>None\<close> when \<^verbatim>\<open>find\<close> returns \<^verbatim>\<open>None\<close>), and a \<^verbatim>\<open>div\<close> of
  class \<^verbatim>\<open>g\<close> on the Google page, seen through its three.
\<close>

record ddg_div =
  ddg_title_elem :: "tag option"
  ddg_snippet_elem :: "tag option"

record google_div =
  g_title_elem :: "tag option"
  g_link_elem :: "tag option"
  g_snippet_elem :: "tag option"

text \<open>
  The network's answers to the requests of one search.  \<open>ddg_page\<close> is \<open>Inl\<close> when
  \<^verbatim>\<open>requests.get\<close>, \<^verbatim>\<open>raise_for_status\<close> or the parser raises, and the list of result
  containers otherwise; \<open>google_page\<close> is the status code with the result containers.
\<close>

record web =
  ddg_page :: "exn + ddg_div list"
  google_page :: "exn + int \<times> google_div list"

text \<open>\<^verbatim>\<open>link.split('/')[2] if '//' in link else link\<close>\<close>

definition source_of :: "string \<Rightarrow> exn + string" where
  "source_of link =
     (if py_in ''//'' link then
        (case drop 2 (split CHR ''/'' link) of
           [] \<Rightarrow> Inl IndexError
         | host # _ \<Rightarrow> Inr host)
      else Inr link)"



definition search_result :: "string \<Rightarrow> string \<Rightarrow> string \<Rightarrow> string \<Rightarrow> string \<Rightarrow> result" where
  "search_result title link snippet src query =
     [''title'' \<mapsto> title, ''link'' \<mapsto> link, ''snippet'' \<mapsto> snippet,
      ''source'' \<mapsto> src, ''query'' \<mapsto> query]"

text \<open>
  The redirect clean-up of the DuckDuckGo tier; \<open>parse_qs\<close> is
  \<^verbatim>\<open>urllib.parse.parse_qs\<close>.
\<close>

definition unwrap_redirect :: "(string \<Rightarrow> string \<rightharpoonup> string list) \<Rightarrow> string \<Rightarrow> exn + string" where
  "unwrap_redirect parse_qs link =
     (if startswith link ''/l/?'' then
        (case parse_qs (drop 4 link) ''uddg'' of
           None \<Rightarrow> Inr link
         | Some [] \<Rightarrow> Inl IndexError
         | Some (u # _) \<Rightarrow> Inr u)
      else Inr link)"

text \<open>
  The body of the inner \<^verbatim>\<open>try\<close> of \<^verbatim>\<open>_search_web\<close> for one container: \<open>Inr None\<close>
  when nothing is appended, \<open>Inl\<close> when it raises (the loop then goes on to the next
  container).
\<close>

definition ddg_parse ::
  "(string \<Rightarrow> string \<rightharpoonup> string list) \<Rightarrow> string \<Rightarrow> ddg_div \<Rightarrow> exn + result option" where
  "ddg_parse parse_qs query d =
     (case (ddg_title_elem d, ddg_snippet_elem d) of
        (Some title_elem, Some snippet_elem) \<Rightarrow>
          (let title = strip (get_text title_elem);
               link = (case href title_elem of None \<Rightarrow> [] | Some h \<Rightarrow> h);
               snippet = strip (get_text snippet_elem)
           in case unwrap_redirect parse_qs link of
                Inl e \<Rightarrow> Inl e
              | Inr link' \<Rightarrow>
                  (case source_of link' of
                     Inl e \<Rightarrow> Inl e
                   | Inr src \<Rightarrow> Inr (Some (search_result title link' snippet src query))))
      | _ \<Rightarrow> Inr None)"

fun ddg_results ::
  "(string \<Rightarrow> string \<rightharpoonup> string list) \<Rightarrow> string \<Rightarrow> ddg_div list \<Rightarrow> result list" where
  "ddg_results parse_qs query [] = []"
| "ddg_results parse_qs query (d # ds) =
     (case ddg_parse parse_qs query d of
        Inr (Some r) \<Rightarrow> r # ddg_results parse_qs query ds
      | _ \<Rightarrow> ddg_results parse_qs query ds)"

text \<open>The same for one container of the Google page in \<^verbatim>\<open>_fallback_search\<close>.\<close>

definition google_parse :: "string \<Rightarrow> google_div \<Rightarrow> exn + result option" where
  "google_parse query g =
     (case (g_title_elem g, g_link_elem g) of
        (Some title_elem, Some link_elem) \<Rightarrow>
          (let title = strip (get_text title_elem);
               link = (case href link_elem of None \<Rightarrow> [] | Some h \<Rightarrow> h);
               snippet = (case g_snippet_elem g of
                            Some snippet_elem \<Rightarrow> strip (get_text snippet_elem)
                          | None \<Rightarrow> ''No description available'')
           in case source_of link of
                Inl e \<Rightarrow> Inl e
              | Inr src \<Rightarrow> Inr (Some (search_result title link snippet src query)))
      | _ \<Rightarrow> Inr None)"

fun google_results :: "string \<Rightarrow> google_div list \<Rightarrow> result list" where
  "google_results query [] = []"
| "google_results query (g # gs) =
     (case google_parse query g of
        Inr (Some r) \<Rightarrow> r # google_results query gs
      | _ \<Rightarrow> google_results query gs)"

text \<open>
  The two live tiers: what each \<^verbatim>\<open>try\<close> block has in \<^verbatim>\<open>search_results\<close> once its
  loop is over, or the exception that ended it.  A Google answer whose status is not 200
  is parsed into nothing.
\<close>

definition ddg_tier ::
  "web \<Rightarrow> (string \<Rightarrow> string \<rightharpoonup> string list) \<Rightarrow> string \<Rightarrow> int \<Rightarrow> exn + result list" where
  "ddg_tier w parse_qs query max_results =
     (case ddg_page w of
        Inl e \<Rightarrow> Inl e
      | Inr results \<Rightarrow> Inr (ddg_results parse_qs query (slice_to results max_results)))"

definition google_tier :: "web \<Rightarrow> string \<Rightarrow> int \<Rightarrow> exn + result list" where
  "google_tier w query max_results =
     (case google_page w of
        Inl e \<Rightarrow> Inl e
      | Inr (status_code, results) \<Rightarrow>
          if status_code = 200 then Inr (google_results query (slice_to results max_results))
          else Inr [])"

text \<open>
  \<^verbatim>\<open>_fallback_search\<close>: the bare \<^verbatim>\<open>except\<close> swallows whatever the Google tier raises;
  the mock generator is called outside the \<^verbatim>\<open>try\<close>.
\<close>

definition fallback_search :: "web \<Rightarrow> string \<Rightarrow> int \<Rightarrow> exn + result list" where
  "fallback_search w query max_results =
     (case google_tier w query max_results of
        Inr search_results \<Rightarrow>
          if search_results \<noteq> [] then Inr search_results
          else generate_mock_results query max_results
      | Inl e \<Rightarrow> generate_mock_results query max_results)"

text \<open>
  \<^verbatim>\<open>_search_web\<close>: the call of \<^verbatim>\<open>_fallback_search\<close> for an empty result stands inside
  the \<^verbatim>\<open>try\<close>, so an exception out of it reaches the handler, which calls
  \<^verbatim>\<open>_fallback_search\<close> again.
\<close>

definition search_web ::
  "web \<Rightarrow> (string \<Rightarrow> string \<rightharpoonup> string list) \<Rightarrow> string \<Rightarrow> int \<Rightarrow> exn + result list" where
  "search_web w parse_qs query max_results =
     (case (case ddg_tier w parse_qs query max_results of
              Inl e \<Rightarrow> Inl e
            | Inr search_results \<Rightarrow>
                if search_results = [] then fallback_search w query max_results
                else Inr search_results) of
        Inl e \<Rightarrow> fallback_search w query max_results
      | Inr search_results \<Rightarrow> Inr search_results)"

section \<open>The question decomposer\<close>

text \<open>
  What \<^verbatim>\<open>json.loads\<close> can return.  A number keeps its literal; an object keeps its
  members in order.
\<close>

datatype json =
    JNull
  | JBool bool
  | JNumber string
  | JString string
  | JArray "json list"
  | JObject "(string \<times> json) list"

text \<open>
  The completion service, as the source uses it: \<^verbatim>\<open>chat.completions.create\<close> takes the
  prompt and raises or returns a response, of which the source reads
  \<^verbatim>\<open>choices[0].message.content\<close>.  A response is the list of its choices' contents
  (\<open>None\<close> for a choice without content).
\<close>

type_synonym chat = "string \<Rightarrow> exn + string option list"

definition nl :: string where
  "nl = [CHR 0x0A]"

definition indent :: string where
  "indent = replicate 8 CHR '' ''"

definition decompose_prompt :: "string \<Rightarrow> string" where
  "decompose_prompt question =
     nl @ indent @ ''Break down this research question into 3-5 specific sub-questions that would help provide a comprehensive answer:''
     @ nl @ indent
     @ nl @ indent @ ''Main Question: '' @ question
     @ nl @ indent
     @ nl @ indent @ ''Return only a JSON list of sub-questions, no other text:''
     @ nl @ indent"

text \<open>
  \<^verbatim>\<open>response.choices[0].message.content.strip()\<close>: an \<^verbatim>\<open>IndexError\<close> without a choice,
  an \<^verbatim>\<open>AttributeError\<close> when the content is \<^verbatim>\<open>None\<close>.
\<close>

definition first_content :: "string option list \<Rightarrow> exn + string" where
  "first_content choices =
     (case choices of
        [] \<Rightarrow> Inl IndexError
      | None # _ \<Rightarrow> Inl AttributeError
      | Some content # _ \<Rightarrow> Inr (strip content))"

text \<open>The removal of the code fence around the reply.\<close>

definition clean_content :: "string \<Rightarrow> string" where
  "clean_content content =
     (if startswith content ''```json''
      then strip (replace (replace content ''```json'' []) ''```'' [])
      else content)"

text \<open>
  \<^verbatim>\<open>_break_down_question\<close> returns what \<^verbatim>\<open>json.loads\<close> returned, whatever its shape, or
  the list \<^verbatim>\<open>[question]\<close> from the handler.
\<close>

definition break_down_question :: "chat \<Rightarrow> (string \<Rightarrow> exn + json) \<Rightarrow> string \<Rightarrow> json" where
  "break_down_question chat_create json_loads question =
     (case (case chat_create (decompose_prompt question) of
              Inl e \<Rightarrow> Inl e
            | Inr choices \<Rightarrow>
                (case first_content choices of
                   Inl e \<Rightarrow> Inl e
                 | Inr content \<Rightarrow> json_loads (clean_content content))) of
        Inl e \<Rightarrow> JArray [JString question]
      | Inr sub_questions \<Rightarrow> sub_questions)"

section \<open>The summarizer\<close>

text \<open>A source is the dictionary literal with the keys \<^verbatim>\<open>id, title, url, snippet\<close>.\<close>

record source =
  source_id :: int
  source_title :: string
  source_url :: string
  source_snippet :: string

text \<open>\<^verbatim>\<open>result['key']\<close>\<close>

definition getitem :: "result \<Rightarrow> string \<Rightarrow> exn + string" where
  "getitem r k = (case r k of None \<Rightarrow> Inl (KeyError k) | Some v \<Rightarrow> Inr v)"

text \<open>
  The body of \<^verbatim>\<open>for i, result in enumerate(search_results)\<close>: the text added to the
  context and the source appended.  The keys are read in the order title, snippet, link.
\<close>

definition summarize_entry :: "nat \<times> result \<Rightarrow> exn + string \<times> source" where
  "summarize_entry ir =
     (case ir of (i, r) \<Rightarrow>
        (case getitem r ''title'' of
           Inl e \<Rightarrow> Inl e
         | Inr title \<Rightarrow>
             (case getitem r ''snippet'' of
                Inl e \<Rightarrow> Inl e
              | Inr snippet \<Rightarrow>
                  (case getitem r ''link'' of
                     Inl e \<Rightarrow> Inl e
                   | Inr link \<Rightarrow>
                       Inr (nl @ ''[Source '' @ str_int (int i + 1) @ ''] '' @ title @ nl
                              @ snippet @ nl @ ''URL: '' @ link @ nl,
                            \<lparr>source_id = int i + 1, source_title = title,
                             source_url = link, source_snippet = snippet\<rparr>)))))"

definition build_context :: "result list \<Rightarrow> exn + string \<times> source list" where
  "build_context search_results =
     (case for_each summarize_entry (enumerate 0 search_results) of
        Inl e \<Rightarrow> Inl e
      | Inr entries \<Rightarrow> Inr (concat (map fst entries), map snd entries))"

text \<open>\<^verbatim>\<open>sep.join(parts)\<close>\<close>

fun join :: "string \<Rightarrow> string list \<Rightarrow> string" where
  "join sep [] = []"
| "join sep [p] = p"
| "join sep (p # q # ps) = p @ sep @ join sep (q # ps)"

definition summary_prompt :: "string \<Rightarrow> string list \<Rightarrow> string \<Rightarrow> string" where
  "summary_prompt main_question sub_questions context =
     nl @ indent @ ''You are a research analyst. Based on the search results below, provide a comprehensive summary ''
     @ nl @ indent @ ''that answers this research question: '' @ main_question
     @ nl @ indent
     @ nl @ indent @ ''Sub-questions explored:''
     @ nl @ indent @ join nl (map (\<lambda>sq. ''- '' @ sq) sub_questions)
     @ nl @ indent
     @ nl @ indent @ ''Search Results:''
     @ nl @ indent @ context
     @ nl @ indent
     @ nl @ indent @ ''Please provide:''
     @ nl @ indent @ ''1. A well-structured summary (500-800 words) that addresses the main question''
     @ nl @ indent @ ''2. Use specific information from the sources''
     @ nl @ indent @ ''3. Maintain objectivity and cite sources using [Source X] format''
     @ nl @ indent @ ''4. Structure the response with clear sections/paragraphs''
     @ nl @ indent @ ''5. Include key statistics, facts, and findings where available''
     @ nl @ indent
     @ nl @ indent @ ''Summary:''
     @ nl @ indent"

text \<open>
  \<^verbatim>\<open>_summarize_findings\<close>.  The sub-questions are the strings the prompt's generator
  takes out of \<^verbatim>\<open>sub_questions\<close>.  The context and the sources are built before the
  \<^verbatim>\<open>try\<close>, so a missing key propagates.
\<close>

definition summarize_findings ::
  "chat \<Rightarrow> string \<Rightarrow> string list \<Rightarrow> result list \<Rightarrow> exn + string \<times> source list" where
  "summarize_findings chat_create main_question sub_questions search_results =
     (case build_context search_results of
        Inl e \<Rightarrow> Inl e
      | Inr (context, sources) \<Rightarrow>
          (case (case chat_create (summary_prompt main_question sub_questions context) of
                   Inl e \<Rightarrow> Inl e
                 | Inr choices \<Rightarrow> first_content choices) of
             Inl e \<Rightarrow> Inr (''Error generating summary. Please try again.'', sources)
           | Inr summary \<Rightarrow> Inr (summary, sources)))"

section \<open>The result store\<close>

text \<open>
  One call of \<^verbatim>\<open>collection.add\<close>: the document, its metadata and its id.  The vector
  store is outside the program; \<open>collection_add\<close> and \<open>collection_query\<close> say whether a
  call raises.
\<close>

record entry =
  entry_document :: string
  entry_research_id :: string
  entry_question :: string
  entry_timestamp :: string
  entry_source_count :: nat
  entry_id :: string

definition store_results ::
  "(entry \<Rightarrow> exn + unit) \<Rightarrow> string \<Rightarrow> string \<Rightarrow> string \<Rightarrow> string \<Rightarrow> source list \<Rightarrow> exn + unit" where
  "store_results collection_add now research_id question summary sources =
     (case collection_add
             \<lparr>entry_document = summary, entry_research_id = research_id,
              entry_question = question, entry_timestamp = now,
              entry_source_count = length sources, entry_id = research_id\<rparr> of
        Inl e \<Rightarrow> Inr ()
      | Inr u \<Rightarrow> Inr ())"

text \<open>
  \<^verbatim>\<open>get_similar_research\<close> returns what the query returned, or the empty list of its
  handler.
\<close>

datatype 'r similar = Query_result 'r | Empty_list

definition get_similar_research ::
  "(string \<Rightarrow> int \<Rightarrow> exn + 'r) \<Rightarrow> string \<Rightarrow> int \<Rightarrow> exn + 'r similar" where
  "get_similar_research collection_query question limit =
     (case collection_query question limit of
        Inl e \<Rightarrow> Inr Empty_list
      | Inr results \<Rightarrow> Inr (Query_result results))"

section \<open>The research orchestrator\<close>

text \<open>
  Everything outside the program that one request meets: the identifier drawn by
  \<^verbatim>\<open>uuid.uuid4\<close>, the clock, the completion service, \<^verbatim>\<open>json.loads\<close>, the network's
  answers to the search made for the \<open>i\<close>-th sub-question, \<^verbatim>\<open>parse_qs\<close>, and the vector
  store.
\<close>

record world =
  uuid4 :: string
  now :: string
  chat_create :: chat
  json_loads :: "string \<Rightarrow> exn + json"
  web_at :: "nat \<Rightarrow> string \<Rightarrow> web"
  parse_qs :: "string \<Rightarrow> string \<rightharpoonup> string list"
  collection_add :: "entry \<Rightarrow> exn + unit"

record response =
  resp_question :: string
  resp_sub_questions :: json
  resp_summary :: string
  resp_sources :: "source list"
  resp_research_id :: string

text \<open>
  \<^verbatim>\<open>for sub_q in sub_questions\<close> and \<^verbatim>\<open>len(sub_questions)\<close> on what the decomposer
  returned: a list gives its items, a string its characters, an object its keys; the
  other values are not iterable.
\<close>

fun py_iter :: "json \<Rightarrow> exn + json list" where
  "py_iter (JArray xs) = Inr xs"
| "py_iter (JString s) = Inr (map (\<lambda>c. JString [c]) s)"
| "py_iter (JObject kvs) = Inr (map (\<lambda>kv. JString (fst kv)) kvs)"
| "py_iter j = Inl TypeError"

fun py_len :: "json \<Rightarrow> exn + int" where
  "py_len (JArray xs) = Inr (int (length xs))"
| "py_len (JString s) = Inr (int (length s))"
| "py_len (JObject kvs) = Inr (int (length kvs))"
| "py_len j = Inl TypeError"

text \<open>\<^verbatim>\<open>a // b\<close>\<close>

definition floordiv :: "int \<Rightarrow> int \<Rightarrow> exn + int" where
  "floordiv a b = (if b = 0 then Inl ZeroDivisionError else Inr (a div b))"

text \<open>
  The body of the search loop for the \<open>i\<close>-th item: the argument
  \<^verbatim>\<open>max_results // len(sub_questions)\<close> is evaluated, then \<^verbatim>\<open>_search_web\<close> is called.
  For an item that is not a string, \<^verbatim>\<open>quote_plus\<close> raises in both live tiers and
  \<^verbatim>\<open>query.lower()\<close> raises an \<^verbatim>\<open>AttributeError\<close> in the mock generator, outside every
  \<^verbatim>\<open>try\<close>.  The step returns the sub-question with its results.
\<close>

definition search_step ::
  "world \<Rightarrow> json \<Rightarrow> int \<Rightarrow> nat \<times> json \<Rightarrow> exn + string \<times> result list" where
  "search_step w sub_questions max_results isq =
     (case isq of (i, sub_q) \<Rightarrow>
        (case py_len sub_questions of
           Inl e \<Rightarrow> Inl e
         | Inr k \<Rightarrow>
             (case floordiv max_results k of
                Inl e \<Rightarrow> Inl e
              | Inr n \<Rightarrow>
                  (case sub_q of
                     JString q \<Rightarrow>
                       (case search_web (web_at w i q) (parse_qs w) q n of
                          Inl e \<Rightarrow> Inl e
                        | Inr results \<Rightarrow> Inr (q, results))
                   | _ \<Rightarrow> Inl AttributeError))))"

definition search_all :: "world \<Rightarrow> json \<Rightarrow> int \<Rightarrow> exn + (string \<times> result list) list" where
  "search_all w sub_questions max_results =
     (case py_iter sub_questions of
        Inl e \<Rightarrow> Inl e
      | Inr items \<Rightarrow> for_each (search_step w sub_questions max_results) (enumerate 0 items))"

definition conduct_research :: "world \<Rightarrow> string \<Rightarrow> int \<Rightarrow> exn + response" where
  "conduct_research w question max_results =
     (let research_id = uuid4 w;
          sub_questions = break_down_question (chat_create w) (json_loads w) question
      in case search_all w sub_questions max_results of
           Inl e \<Rightarrow> Inl e
         | Inr searched \<Rightarrow>
             (let all_search_results = concat (map snd searched) in
              case summarize_findings (chat_create w) question (map fst searched)
                     all_search_results of
                Inl e \<Rightarrow> Inl e
              | Inr (summary, sources) \<Rightarrow>
                  (case store_results (collection_add w) (now w) research_id question
                          summary sources of
                     Inl e \<Rightarrow> Inl e
                   | Inr u \<Rightarrow>
                       Inr \<lparr>resp_question = question, resp_sub_questions = sub_questions,
                            resp_summary = summary, resp_sources = sources,
                            resp_research_id = research_id\<rparr>)))"

section \<open>Scenarios\<close>

text \<open>
  Stand-ins for the services, for running the agent on concrete inputs: a completion
  service that answers every prompt with one fixed reply, a \<^verbatim>\<open>json.loads\<close> fixed at one
  document (\<^verbatim>\<open>json.loads("[]")\<close> is the empty list), and a world in which every service
  fails.
\<close>

definition chat_replying :: "string \<Rightarrow> chat" where
  "chat_replying reply prompt = Inr [Some reply]"

definition loads_only :: "string \<Rightarrow> json \<Rightarrow> string \<Rightarrow> exn + json" where
  "loads_only doc v s = (if s = doc then Inr v else Inl JSONDecodeError)"

definition offline_world :: world where
  "offline_world =
     \<lparr>uuid4 = ''9f1c2d3e-0000-4000-8000-000000000001'',
      now = ''2024-01-01T00:00:00'',
      chat_create = (\<lambda>prompt. Inl (ExternalError ''offline'')),
      json_loads = (\<lambda>s. Inl JSONDecodeError),
      web_at = (\<lambda>i q. \<lparr>ddg_page = Inl (ExternalError ''offline''),
                        google_page = Inl (ExternalError ''offline'')\<rparr>),
      parse_qs = (\<lambda>s. Map.empty),
      collection_add = (\<lambda>e. Inl (ExternalError ''offline''))\<rparr>"

section \<open>Properties of the mock result generator\<close>

lemma for_each_rel:
  "(\<And>x. x \<in> set xs \<Longrightarrow> \<exists>y. f x = Inr y \<and> R x y) \<Longrightarrow>
     \<exists>ys. for_each f xs = Inr ys \<and> list_all2 R xs ys"
proof (induction xs)
  case Nil
  show ?case by simp
next
  case (Cons x xs)
  from Cons.prems obtain y where y: "f x = Inr y" "R x y" by auto
  from Cons obtain ys where ys: "for_each f xs = Inr ys" "list_all2 R xs ys" by auto
  from y ys show ?case by simp
qed

lemma ensure_format_canned:
  "ensure_format q (canned t s sn) =
     Inr ((canned t s sn)(''query'' \<mapsto> q, ''link'' \<mapsto> ''https://'' @ s))"
  by (simp add: ensure_format_def canned_def)

lemma ensure_format_generic:
  "ensure_format q (generic_result q i) = Inr (generic_result q i)"
  by (simp add: ensure_format_def generic_result_def)

lemma topics_canned:
  "(topic, rs) \<in> set topics \<Longrightarrow> r \<in> set rs \<Longrightarrow>
     \<exists>t s sn. r = canned t s sn \<and> t \<noteq> [] \<and> s \<noteq> [] \<and> sn \<noteq> []"
  unfolding topics_def climate_results_def ai_results_def economic_results_def
  by (elim set_ConsD[elim_format] disjE) auto

lemma find_topic_mem:
  "find_topic ts ql = Some rs \<Longrightarrow> \<exists>topic. (topic, rs) \<in> set ts"
  by (induction ts ql rule: find_topic.induct) (auto split: if_splits)

lemma topics_length: "(topic, rs) \<in> set topics \<Longrightarrow> length rs = 3"
  by (auto simp: topics_def climate_results_def ai_results_def economic_results_def)

lemma set_slice_to: "set (slice_to xs n) \<subseteq> set xs"
  by (auto simp: slice_to_def dest: in_set_takeD)

lemma length_slice_to_nonneg: "0 \<le> n \<Longrightarrow> int (length (slice_to xs n)) \<le> n"
  by (simp add: slice_to_def)

lemma slice_to_nonneg: "0 \<le> n \<Longrightarrow> slice_to xs n = take (nat n) xs"
  by (simp add: slice_to_def)

lemma mock_topic_branch:
  assumes "find_topic topics (lower q) = Some cs"
  shows "\<exists>rs. generate_mock_results q n = Inr rs \<and>
            list_all2 (\<lambda>c r. \<exists>t s sn. c = canned t s sn \<and> t \<noteq> [] \<and> s \<noteq> [] \<and> sn \<noteq> [] \<and>
                 r = c(''query'' \<mapsto> q, ''link'' \<mapsto> ''https://'' @ s)) (slice_to cs n) rs"
proof -
  let ?R = "\<lambda>c r. \<exists>t s sn. c = canned t s sn \<and> t \<noteq> [] \<and> s \<noteq> [] \<and> sn \<noteq> [] \<and>
                 r = c(''query'' \<mapsto> q, ''link'' \<mapsto> ''https://'' @ s)"
  from assms obtain topic where mem: "(topic, cs) \<in> set topics"
    using find_topic_mem by blast
  then have "length cs = 3" by (rule topics_length)
  then have ne: "cs \<noteq> []" by auto
  have run: "generate_mock_results q n = for_each (ensure_format q) (slice_to cs n)"
    using assms ne by (simp add: generate_mock_results_def)
  have step: "\<exists>y. ensure_format q c = Inr y \<and> ?R c y"
    if "c \<in> set (slice_to cs n)" for c
  proof -
    from that have "c \<in> set cs" using set_slice_to [of cs n] by (rule subsetD [rotated])
    with mem obtain t s sn where c: "c = canned t s sn" "t \<noteq> []" "s \<noteq> []" "sn \<noteq> []"
      using topics_canned by blast
    let ?y = "c(''query'' \<mapsto> q, ''link'' \<mapsto> ''https://'' @ s)"
    have a: "ensure_format q c = Inr ?y"
      unfolding c(1) by (rule ensure_format_canned)
    have b: "?R c ?y"
      using c by (intro exI [of _ t] exI [of _ s] exI [of _ sn]) simp
    from a b show ?thesis by (intro exI [of _ ?y] conjI)
  qed
  have "\<exists>ys. for_each (ensure_format q) (slice_to cs n) = Inr ys \<and> list_all2 ?R (slice_to cs n) ys"
    by (rule for_each_rel) (rule step)
  with run show ?thesis by simp
qed

lemma mock_generic_branch:
  assumes "find_topic topics (lower q) = None"
  shows "generate_mock_results q n = Inr (map (generic_result q) (range n))"
proof -
  have "for_each (ensure_format q) (map (generic_result q) is) = Inr (map (generic_result q) is)" for "is"
    by (induction "is") (simp_all add: ensure_format_generic)
  with assms show ?thesis by (simp add: generate_mock_results_def)
qed


lemma list_all2_map_back:
  "list_all2 R xs ys \<Longrightarrow> (\<And>x y. R x y \<Longrightarrow> f y = x) \<Longrightarrow> map f ys = xs"
  by (induction rule: list_all2_induct) simp_all

lemma generic_fields:
  "generic_result q i ''title'' = Some (''Research Result '' @ str_int (int i + 1) @ '': '' @ q)"
  "generic_result q i ''link'' = Some (''https://example.com/research-'' @ str_int (int i + 1))"
  "generic_result q i ''snippet'' = Some (''This is a research finding related to '' @ q
          @ ''. The information provides insights and analysis on the topic.'')"
  "generic_result q i ''source'' = Some (''research-source-'' @ str_int (int i + 1) @ ''.com'')"
  "generic_result q i ''query'' = Some q"
  by (simp_all add: generic_result_def)

text \<open>
  \<^bold>\<open>C7\<close> (amended).  \<^verbatim>\<open>_generate_mock_results\<close> reads its two arguments and the
  literal \<^verbatim>\<open>topics\<close> only, so it is a function of the query and the cap: equal arguments
  give equal results.  For every query and every cap it returns normally, and every
  record returned has a non-empty title, link, snippet and source; when a topic matched,
  the link of each record (a canned record has none) is \<^verbatim>\<open>https://\<close> followed by its
  source.  For a cap \<open>n \<ge> 0\<close> at most \<open>n\<close> records are returned.
\<close>

theorem generate_mock_results_capped_populated:
  "(\<forall>query' n'. query' = query \<and> n' = n \<longrightarrow>
      generate_mock_results query' n' = generate_mock_results query n) \<and>
   (\<exists>rs. generate_mock_results query n = Inr rs \<and>
     (0 \<le> n \<longrightarrow> int (length rs) \<le> n) \<and>
     (\<forall>r \<in> set rs. \<exists>t l sn s.
        r ''title'' = Some t \<and> t \<noteq> [] \<and> r ''link'' = Some l \<and> l \<noteq> [] \<and>
        r ''snippet'' = Some sn \<and> sn \<noteq> [] \<and> r ''source'' = Some s \<and> s \<noteq> [] \<and>
        (find_topic topics (lower query) \<noteq> None \<longrightarrow> l = ''https://'' @ s)))"
proof -
  let ?P = "\<lambda>r. \<exists>t l sn s.
        r ''title'' = Some t \<and> t \<noteq> [] \<and> r ''link'' = Some l \<and> l \<noteq> [] \<and>
        r ''snippet'' = Some sn \<and> sn \<noteq> [] \<and> r ''source'' = Some s \<and> s \<noteq> [] \<and>
        (find_topic topics (lower query) \<noteq> None \<longrightarrow> l = ''https://'' @ s)"
  have main: "\<exists>rs. generate_mock_results query n = Inr rs \<and>
     (0 \<le> n \<longrightarrow> int (length rs) \<le> n) \<and> (\<forall>r \<in> set rs. ?P r)"
  proof (cases "find_topic topics (lower query)")
    case None
    let ?rs = "map (generic_result query) (range n)"
    from None have run: "generate_mock_results query n = Inr ?rs"
      by (rule mock_generic_branch)
    have len: "0 \<le> n \<longrightarrow> int (length ?rs) \<le> n"
      by (simp add: range_def)
    have pop: "\<forall>r \<in> set ?rs. ?P r"
    proof
      fix r assume "r \<in> set ?rs"
      then obtain i where "r = generic_result query i" by auto
      then show "?P r" using None by (simp add: generic_fields)
    qed
    from run len pop show ?thesis by (intro exI [of _ ?rs] conjI)
  next
    case (Some cs)
    let ?R = "\<lambda>c r. \<exists>t s sn. c = canned t s sn \<and> t \<noteq> [] \<and> s \<noteq> [] \<and> sn \<noteq> [] \<and>
                   r = c(''query'' \<mapsto> query, ''link'' \<mapsto> ''https://'' @ s)"
    from mock_topic_branch [OF Some, of n] obtain rs where
      run: "generate_mock_results query n = Inr rs" and rel: "list_all2 ?R (slice_to cs n) rs"
      by blast
    from rel have "length rs = length (slice_to cs n)"
      by (simp add: list_all2_lengthD)
    then have len: "0 \<le> n \<longrightarrow> int (length rs) \<le> n"
      by (simp add: length_slice_to_nonneg)
    have pop: "\<forall>r \<in> set rs. ?P r"
    proof
      fix r assume "r \<in> set rs"
      then obtain i where i: "i < length rs" "r = rs ! i"
        by (auto simp: in_set_conv_nth)
      with rel have "?R (slice_to cs n ! i) r"
        by (simp add: list_all2_conv_all_nth)
      then obtain t s sn
        where r: "r = (canned t s sn)(''query'' \<mapsto> query, ''link'' \<mapsto> ''https://'' @ s)"
          and ne: "t \<noteq> []" "s \<noteq> []" "sn \<noteq> []"
        by auto
      show "?P r" unfolding r using ne by (simp add: canned_def)
    qed
    from run len pop show ?thesis by (intro exI [of _ rs] conjI)
  qed
  have same: "\<forall>query' n'. query' = query \<and> n' = n \<longrightarrow>
      generate_mock_results query' n' = generate_mock_results query n"
    by simp
  from same main show ?thesis by (rule conjI)
qed

theorem generate_mock_results_capped_populated_witness:
  "(0::int) \<le> 2 \<and> find_topic topics (lower ''What drives climate change?'') \<noteq> None \<and>
   (\<exists>rs. generate_mock_results ''What drives climate change?'' 2 = Inr rs \<and> rs \<noteq> [] \<and>
      int (length rs) \<le> 2 \<and>
      (\<exists>l s. hd rs ''link'' = Some l \<and> hd rs ''source'' = Some s \<and> l = ''https://'' @ s))"
proof -
  let ?q = "''What drives climate change?''"
  have topic: "find_topic topics (lower ?q) \<noteq> None"
    by (simp add: topics_def lower_def lower_char_def upper_letters_def lower_letters_def)
  have len: "map_sum id length (generate_mock_results ?q 2) = Inr 2"
    by (simp add: generate_mock_results_def topics_def climate_results_def lower_def
        lower_char_def upper_letters_def lower_letters_def slice_to_def ensure_format_def canned_def Let_def)
  from generate_mock_results_capped_populated [of ?q 2, THEN conjunct2] obtain rs
    where run: "generate_mock_results ?q 2 = Inr rs"
      and cap: "0 \<le> (2::int) \<longrightarrow> int (length rs) \<le> 2"
      and pop: "\<forall>r \<in> set rs. \<exists>t l sn s.
        r ''title'' = Some t \<and> t \<noteq> [] \<and> r ''link'' = Some l \<and> l \<noteq> [] \<and>
        r ''snippet'' = Some sn \<and> sn \<noteq> [] \<and> r ''source'' = Some s \<and> s \<noteq> [] \<and>
        (find_topic topics (lower ?q) \<noteq> None \<longrightarrow> l = ''https://'' @ s)"
    by blast
  from len run have ne: "rs \<noteq> []" by auto
  then have "hd rs \<in> set rs" by simp
  with pop topic have "\<exists>l s. hd rs ''link'' = Some l \<and> hd rs ''source'' = Some s \<and> l = ''https://'' @ s"
    by fastforce
  with topic run ne cap show ?thesis by simp
qed

theorem generate_mock_results_capped_counterexample:
  "map_sum id length (generate_mock_results ''climate change'' (- 1)) = Inr 2 \<and>
   \<not> int 2 \<le> - 1"
  by (simp add: generate_mock_results_def topics_def climate_results_def lower_def
      lower_char_def upper_letters_def lower_letters_def slice_to_def ensure_format_def canned_def Let_def)

text \<open>
  \<^bold>\<open>C8\<close> (amended).  For a cap \<open>n \<ge> 0\<close> and a query whose lower-cased text contains
  a topic keyword, the records returned are the first \<open>n\<close> canned records of the first
  topic that matches, in the order climate change, artificial intelligence, economic, each
  with the query stored under \<^verbatim>\<open>query\<close> and \<^verbatim>\<open>https://\<close> followed by its source stored
  under \<^verbatim>\<open>link\<close>, and nothing else changed: restricted to the keys of a canned record
  (title, source, snippet) they are the canned records.
\<close>

theorem generate_mock_results_topic:
  assumes "0 \<le> n"
    and "py_in ''climate change'' (lower query) \<and> cs = climate_results \<or>
         \<not> py_in ''climate change'' (lower query) \<and>
           py_in ''artificial intelligence'' (lower query) \<and> cs = ai_results \<or>
         \<not> py_in ''climate change'' (lower query) \<and>
           \<not> py_in ''artificial intelligence'' (lower query) \<and>
           py_in ''economic'' (lower query) \<and> cs = economic_results"
  shows "\<exists>rs. generate_mock_results query n = Inr rs \<and>
           length rs = length (take (nat n) cs) \<and>
           (\<forall>i < length rs. \<exists>s.
              (take (nat n) cs ! i) ''source'' = Some s \<and>
              rs ! i = (take (nat n) cs ! i)(''query'' \<mapsto> query, ''link'' \<mapsto> ''https://'' @ s)) \<and>
           map (\<lambda>r. r |` {''title'', ''source'', ''snippet''}) rs = take (nat n) cs"
proof -
  let ?R = "\<lambda>c r. \<exists>t s sn. c = canned t s sn \<and> t \<noteq> [] \<and> s \<noteq> [] \<and> sn \<noteq> [] \<and>
                 r = c(''query'' \<mapsto> query, ''link'' \<mapsto> ''https://'' @ s)"
  from assms(2) have found: "find_topic topics (lower query) = Some cs"
    by (auto simp: topics_def)
  from mock_topic_branch [OF found, of n] obtain rs where
    run: "generate_mock_results query n = Inr rs" and rel0: "list_all2 ?R (slice_to cs n) rs"
    by blast
  from rel0 assms(1) have rel: "list_all2 ?R (take (nat n) cs) rs"
    by (simp add: slice_to_nonneg)
  from rel have len: "length rs = length (take (nat n) cs)"
    by (rule list_all2_lengthD [THEN sym])
  have each: "\<forall>i < length rs. \<exists>s.
              (take (nat n) cs ! i) ''source'' = Some s \<and>
              rs ! i = (take (nat n) cs ! i)(''query'' \<mapsto> query, ''link'' \<mapsto> ''https://'' @ s)"
  proof (intro allI impI)
    fix i assume "i < length rs"
    with rel have "?R (take (nat n) cs ! i) (rs ! i)"
      by (rule list_all2_nthD2)
    then obtain t s sn where c: "take (nat n) cs ! i = canned t s sn"
      and r: "rs ! i = (take (nat n) cs ! i)(''query'' \<mapsto> query, ''link'' \<mapsto> ''https://'' @ s)"
      by auto
    from c have "(take (nat n) cs ! i) ''source'' = Some s"
      by (simp add: canned_def)
    with r show "\<exists>s. (take (nat n) cs ! i) ''source'' = Some s \<and>
              rs ! i = (take (nat n) cs ! i)(''query'' \<mapsto> query, ''link'' \<mapsto> ''https://'' @ s)"
      by (intro exI [of _ s] conjI)
  qed
  have keep: "map (\<lambda>r. r |` {''title'', ''source'', ''snippet''}) rs = take (nat n) cs"
    using rel by (rule list_all2_map_back) (auto simp: canned_def restrict_map_def fun_eq_iff)
  from run len each keep show ?thesis
    by (intro exI [of _ rs] conjI)
qed

theorem generate_mock_results_topic_witness:
  "(0::int) \<le> 2 \<and>
   \<not> py_in ''climate change'' (lower ''Artificial Intelligence and economic growth'') \<and>
   py_in ''artificial intelligence'' (lower ''Artificial Intelligence and economic growth'') \<and>
   generate_mock_results ''Artificial Intelligence and economic growth'' 2 =
     Inr [(ai_results ! 0)(''query'' \<mapsto> ''Artificial Intelligence and economic growth'',
                           ''link'' \<mapsto> ''https://mit.edu''),
          (ai_results ! 1)(''query'' \<mapsto> ''Artificial Intelligence and economic growth'',
                           ''link'' \<mapsto> ''https://stanford.edu'')]"
proof -
  let ?q = "''Artificial Intelligence and economic growth''"
  have no: "\<not> py_in ''climate change'' (lower ?q)"
    and yes: "py_in ''artificial intelligence'' (lower ?q)"
    by (simp_all add: lower_def lower_char_def upper_letters_def lower_letters_def)
  have two: "take (nat 2) ai_results = [ai_results ! 0, ai_results ! 1]"
    by (simp add: ai_results_def)
  have src: "(ai_results ! 0) ''source'' = Some ''mit.edu''"
    "(ai_results ! 1) ''source'' = Some ''stanford.edu''"
    by (simp_all add: ai_results_def canned_def)
  have "(0::int) \<le> 2" by simp
  from generate_mock_results_topic [OF this, of ?q ai_results] no yes obtain rs
    where run: "generate_mock_results ?q 2 = Inr rs"
      and len: "length rs = length (take (nat 2) ai_results)"
      and each: "\<forall>i < length rs. \<exists>s.
              (take (nat 2) ai_results ! i) ''source'' = Some s \<and>
              rs ! i = (take (nat 2) ai_results ! i)(''query'' \<mapsto> ?q, ''link'' \<mapsto> ''https://'' @ s)"
    by auto
  from len have len2: "length rs = 2" by (simp add: ai_results_def)
  then obtain a b where ab: "rs = [a, b]"
    by (cases rs; cases "tl rs") auto
  from each len2 have "\<exists>s. (take (nat 2) ai_results ! 0) ''source'' = Some s \<and>
      rs ! 0 = (take (nat 2) ai_results ! 0)(''query'' \<mapsto> ?q, ''link'' \<mapsto> ''https://'' @ s)"
    by (elim allE [of _ 0]) simp
  then have a: "a = (ai_results ! 0)(''query'' \<mapsto> ?q, ''link'' \<mapsto> ''https://mit.edu'')"
    unfolding two ab using src(1) by auto
  from each len2 have "\<exists>s. (take (nat 2) ai_results ! 1) ''source'' = Some s \<and>
      rs ! 1 = (take (nat 2) ai_results ! 1)(''query'' \<mapsto> ?q, ''link'' \<mapsto> ''https://'' @ s)"
    by (elim allE [of _ 1]) simp
  then have b: "b = (ai_results ! 1)(''query'' \<mapsto> ?q, ''link'' \<mapsto> ''https://stanford.edu'')"
    unfolding two ab using src(2) by auto
  from run ab a b no yes show ?thesis by simp
qed

theorem generate_mock_results_topic_counterexample:
  "py_in ''economic'' (lower ''Economic outlook'') \<and>
   map_sum id length (generate_mock_results ''Economic outlook'' (- 2)) = Inr 1 \<and>
   \<not> int 1 \<le> - 2 \<and>
   length (take (nat (- 2)) economic_results) = 0"
  by (simp add: generate_mock_results_def topics_def economic_results_def lower_def
      lower_char_def upper_letters_def lower_letters_def slice_to_def ensure_format_def canned_def Let_def)

section \<open>The source of a parsed result\<close>












lemma ddg_results_parsed:
  "r \<in> set (ddg_results pq query ds) \<Longrightarrow> \<exists>d \<in> set ds. ddg_parse pq query d = Inr (Some r)"
  by (induction ds) (auto split: sum.splits option.splits)

lemma google_results_parsed:
  "r \<in> set (google_results query gs) \<Longrightarrow> \<exists>g \<in> set gs. google_parse query g = Inr (Some r)"
  by (induction gs) (auto split: sum.splits option.splits)

lemma ddg_parse_shape:
  "ddg_parse pq query d = Inr (Some r) \<Longrightarrow>
     \<exists>title link snippet src. source_of link = Inr src \<and> r = search_result title link snippet src query"
  by (auto simp: ddg_parse_def Let_def split: option.splits sum.splits)

lemma google_parse_shape:
  "google_parse query g = Inr (Some r) \<Longrightarrow>
     \<exists>title link snippet src. source_of link = Inr src \<and> r = search_result title link snippet src query"
  by (auto simp: google_parse_def Let_def split: option.splits sum.splits)





section \<open>The fallback chain of the web search client\<close>

lemma generate_mock_results_total: "\<exists>rs. generate_mock_results query n = Inr rs"
proof (cases "find_topic topics (lower query)")
  case None
  then show ?thesis by (simp add: mock_generic_branch)
next
  case (Some cs)
  from mock_topic_branch [OF Some, of n] show ?thesis by blast
qed


lemma mock_length:
  assumes "0 \<le> n" and "generate_mock_results query n = Inr rs"
  shows "int (length rs) \<le> n"
proof (cases "find_topic topics (lower query)")
  case None
  then have "generate_mock_results query n = Inr (map (generic_result query) (range n))"
    by (rule mock_generic_branch)
  with assms show ?thesis by (auto simp: range_def)
next
  case (Some cs)
  let ?R = "\<lambda>c r. \<exists>t s sn. c = canned t s sn \<and> t \<noteq> [] \<and> s \<noteq> [] \<and> sn \<noteq> [] \<and>
                 r = c(''query'' \<mapsto> query, ''link'' \<mapsto> ''https://'' @ s)"
  from mock_topic_branch [OF Some, of n] assms(2) have "list_all2 ?R (slice_to cs n) rs"
    by auto
  then have "length rs = length (slice_to cs n)" by (simp add: list_all2_lengthD)
  with assms(1) show ?thesis by (simp add: length_slice_to_nonneg)
qed

lemma fallback_search_total:
  "\<exists>rs. fallback_search w query n = Inr rs"
proof -
  from generate_mock_results_total [of query n] obtain rs
    where "generate_mock_results query n = Inr rs" ..
  then show ?thesis
    by (auto simp: fallback_search_def split: sum.splits)
qed




lemma search_web_chain:
  "(\<exists>e. ddg_tier w pq query n = Inl e) \<or> ddg_tier w pq query n = Inr [] \<Longrightarrow>
     search_web w pq query n = fallback_search w query n"
  using fallback_search_total [of w query n]
  by (auto simp: search_web_def split: sum.splits)

lemma search_web_primary:
  "ddg_tier w pq query n = Inr rs \<Longrightarrow> rs \<noteq> [] \<Longrightarrow> search_web w pq query n = Inr rs"
  by (simp add: search_web_def)

lemma search_web_cases:
  "(\<exists>rs. ddg_tier w pq query n = Inr rs \<and> rs \<noteq> [] \<and> search_web w pq query n = Inr rs) \<or>
   search_web w pq query n = fallback_search w query n"
proof (cases "ddg_tier w pq query n")
  case (Inl e)
  then show ?thesis using search_web_chain [of w pq query n] by blast
next
  case (Inr rs)
  then show ?thesis
    using search_web_chain [of w pq query n] search_web_primary [of w pq query n rs]
    by (cases "rs = []") auto
qed



section \<open>The decomposer\<close>

text \<open>
  \<^bold>\<open>C1\<close> (amended).  \<^verbatim>\<open>_break_down_question\<close> returns the one-element list holding the
  question whenever the completion call raises, the response has no choice or no
  content, or \<^verbatim>\<open>json.loads\<close> raises on the cleaned reply; otherwise it returns the value
  \<^verbatim>\<open>json.loads\<close> gave, as it is.
\<close>

theorem break_down_question_outcomes:
  "(\<forall>e. chat (decompose_prompt question) = Inl e \<longrightarrow>
      break_down_question chat loads question = JArray [JString question]) \<and>
   (\<forall>choices e. chat (decompose_prompt question) = Inr choices \<and> first_content choices = Inl e \<longrightarrow>
      break_down_question chat loads question = JArray [JString question]) \<and>
   (\<forall>choices content e. chat (decompose_prompt question) = Inr choices \<and>
      first_content choices = Inr content \<and> loads (clean_content content) = Inl e \<longrightarrow>
      break_down_question chat loads question = JArray [JString question]) \<and>
   (\<forall>choices content v. chat (decompose_prompt question) = Inr choices \<and>
      first_content choices = Inr content \<and> loads (clean_content content) = Inr v \<longrightarrow>
      break_down_question chat loads question = v)"
  by (simp add: break_down_question_def)

theorem break_down_question_outcomes_witness:
  "break_down_question (\<lambda>prompt. Inl (ExternalError ''rate limit'')) (loads_only ''[]'' (JArray []))
     ''What is AI?'' = JArray [JString ''What is AI?''] \<and>
   break_down_question (chat_replying ''not json'') (loads_only ''[]'' (JArray []))
     ''What is AI?'' = JArray [JString ''What is AI?''] \<and>
   break_down_question (chat_replying ''```json [\"a\"] ```'')
     (loads_only ''[\"a\"]'' (JArray [JString ''a''])) ''What is AI?'' = JArray [JString ''a''] \<and>
   break_down_question (chat_replying [CHR 0xA0, CHR ''['', CHR '']'', CHR 0xA0])
     (loads_only ''[]'' (JArray [])) ''What is AI?'' = JArray []"
proof -
  let ?q = "''What is AI?''"
  let ?down = "\<lambda>prompt :: string. Inl (ExternalError ''rate limit'') :: exn + string option list"
  let ?loads = "loads_only ''[]'' (JArray [])"
  have "?down (decompose_prompt ?q) = Inl (ExternalError ''rate limit'')" by simp
  with break_down_question_outcomes [of ?down ?q ?loads]
  have a: "break_down_question ?down ?loads ?q = JArray [JString ?q]" by blast
  have "chat_replying ''not json'' (decompose_prompt ?q) = Inr [Some ''not json'']"
    and "first_content [Some ''not json''] = Inr ''not json''"
    and "?loads (clean_content ''not json'') = Inl JSONDecodeError"
    by (simp_all add: chat_replying_def first_content_def strip_def is_space_def
        clean_content_def loads_only_def)
  with break_down_question_outcomes [of "chat_replying ''not json''" ?q ?loads]
  have b: "break_down_question (chat_replying ''not json'') ?loads ?q = JArray [JString ?q]"
    by blast
  let ?reply = "''```json [\"a\"] ```''"
  let ?loads' = "loads_only ''[\"a\"]'' (JArray [JString ''a''])"
  have "chat_replying ?reply (decompose_prompt ?q) = Inr [Some ?reply]"
    and "first_content [Some ?reply] = Inr ?reply"
    and "?loads' (clean_content ?reply) = Inr (JArray [JString ''a''])"
    by (simp_all add: chat_replying_def first_content_def strip_def is_space_def
        clean_content_def loads_only_def)
  with break_down_question_outcomes [of "chat_replying ?reply" ?q ?loads']
  have c: "break_down_question (chat_replying ?reply) ?loads' ?q = JArray [JString ''a'']"
    by blast
  let ?padded = "[CHR 0xA0, CHR ''['', CHR '']'', CHR 0xA0]"
  have "chat_replying ?padded (decompose_prompt ?q) = Inr [Some ?padded]"
    and "first_content [Some ?padded] = Inr ''[]''"
    and "?loads (clean_content ''[]'') = Inr (JArray [])"
    by (simp_all add: chat_replying_def first_content_def strip_def is_space_def
        clean_content_def loads_only_def)
  with break_down_question_outcomes [of "chat_replying ?padded" ?q ?loads]
  have d: "break_down_question (chat_replying ?padded) ?loads ?q = JArray []"
    by blast
  from a b c d show ?thesis by simp
qed

theorem break_down_question_counterexample:
  "break_down_question (chat_replying ''[]'') (loads_only ''[]'' (JArray [])) ''What is AI?''
     = JArray []"
  by (simp add: break_down_question_def chat_replying_def first_content_def strip_def
      is_space_def clean_content_def loads_only_def)

section \<open>The summarizer and its sources\<close>

lemma mock_record_fields:
  assumes "generate_mock_results query n = Inr rs" and "r \<in> set rs"
  shows "\<exists>t l sn s.
        r ''title'' = Some t \<and> t \<noteq> [] \<and> r ''link'' = Some l \<and> l \<noteq> [] \<and>
        r ''snippet'' = Some sn \<and> sn \<noteq> [] \<and> r ''source'' = Some s \<and> s \<noteq> [] \<and>
        (find_topic topics (lower query) \<noteq> None \<longrightarrow> l = ''https://'' @ s)"
proof (cases "find_topic topics (lower query)")
  case None
  then have "generate_mock_results query n = Inr (map (generic_result query) (range n))"
    by (rule mock_generic_branch)
  with assms obtain i where "r = generic_result query i" by auto
  then show ?thesis using None by (simp add: generic_fields)
next
  case (Some cs)
  let ?R = "\<lambda>c r. \<exists>t s sn. c = canned t s sn \<and> t \<noteq> [] \<and> s \<noteq> [] \<and> sn \<noteq> [] \<and>
                 r = c(''query'' \<mapsto> query, ''link'' \<mapsto> ''https://'' @ s)"
  from mock_topic_branch [OF Some, of n] assms(1) have rel: "list_all2 ?R (slice_to cs n) rs"
    by auto
  from assms(2) obtain i where i: "i < length rs" "r = rs ! i"
    by (auto simp: in_set_conv_nth)
  with rel have "?R (slice_to cs n ! i) r"
    by (simp add: list_all2_conv_all_nth)
  then obtain t s sn
    where r: "r = (canned t s sn)(''query'' \<mapsto> query, ''link'' \<mapsto> ''https://'' @ s)"
      and ne: "t \<noteq> []" "s \<noteq> []" "sn \<noteq> []"
    by auto
  show ?thesis unfolding r using ne by (simp add: canned_def)
qed

lemma search_result_fields:
  "search_result t l sn s q ''title'' = Some t"
  "search_result t l sn s q ''link'' = Some l"
  "search_result t l sn s q ''snippet'' = Some sn"
  "search_result t l sn s q ''source'' = Some s"
  "search_result t l sn s q ''query'' = Some q"
  by (simp_all add: search_result_def)

lemma ddg_results_wellformed:
  assumes "r \<in> set (ddg_results pq query ds)"
  shows "\<exists>t l sn. r ''title'' = Some t \<and> r ''link'' = Some l \<and> r ''snippet'' = Some sn"
proof -
  from assms obtain d where "ddg_parse pq query d = Inr (Some r)"
    using ddg_results_parsed by blast
  then obtain t l sn s where "r = search_result t l sn s query"
    using ddg_parse_shape by blast
  then show ?thesis by (simp add: search_result_fields)
qed

lemma google_results_wellformed:
  assumes "r \<in> set (google_results query gs)"
  shows "\<exists>t l sn. r ''title'' = Some t \<and> r ''link'' = Some l \<and> r ''snippet'' = Some sn"
proof -
  from assms obtain g where "google_parse query g = Inr (Some r)"
    using google_results_parsed by blast
  then obtain t l sn s where "r = search_result t l sn s query"
    using google_parse_shape by blast
  then show ?thesis by (simp add: search_result_fields)
qed

lemma fallback_search_wellformed:
  assumes "fallback_search w query n = Inr rs" and "r \<in> set rs"
  shows "\<exists>t l sn. r ''title'' = Some t \<and> r ''link'' = Some l \<and> r ''snippet'' = Some sn"
proof (cases "\<exists>gs. google_tier w query n = Inr gs \<and> gs \<noteq> []")
  case True
  then obtain gs where gs: "google_tier w query n = Inr gs" "gs \<noteq> []" by blast
  with assms have "r \<in> set gs" by (simp add: fallback_search_def)
  moreover from gs obtain ds where "gs = google_results query ds"
    by (auto simp: google_tier_def split: sum.splits if_splits)
  ultimately show ?thesis using google_results_wellformed by blast
next
  case False
  then have "fallback_search w query n = generate_mock_results query n"
    by (auto simp: fallback_search_def split: sum.splits)
  with assms have "generate_mock_results query n = Inr rs" by simp
  from mock_record_fields [OF this assms(2)] show ?thesis by blast
qed

lemma search_web_wellformed:
  assumes "search_web w pq query n = Inr rs" and "r \<in> set rs"
  shows "\<exists>t l sn. r ''title'' = Some t \<and> r ''link'' = Some l \<and> r ''snippet'' = Some sn"
  using search_web_cases [of w pq query n]
proof
  assume "\<exists>ds. ddg_tier w pq query n = Inr ds \<and> ds \<noteq> [] \<and> search_web w pq query n = Inr ds"
  with assms have "ddg_tier w pq query n = Inr rs" by auto
  then obtain ds where "rs = ddg_results pq query ds"
    by (auto simp: ddg_tier_def split: sum.splits)
  with assms(2) show ?thesis using ddg_results_wellformed by blast
next
  assume "search_web w pq query n = fallback_search w query n"
  with assms show ?thesis using fallback_search_wellformed by metis
qed

lemma build_context_sources:
  assumes "\<forall>r \<in> set results. \<exists>t l sn. r ''title'' = Some t \<and> r ''link'' = Some l \<and> r ''snippet'' = Some sn"
  shows "\<exists>context sources. build_context results = Inr (context, sources) \<and>
           length sources = length results \<and>
           (\<forall>i < length results.
              source_id (sources ! i) = int i + 1 \<and>
              (results ! i) ''title'' = Some (source_title (sources ! i)) \<and>
              (results ! i) ''link'' = Some (source_url (sources ! i)) \<and>
              (results ! i) ''snippet'' = Some (source_snippet (sources ! i)))"
proof -
  let ?R = "\<lambda>ir ps. source_id (snd ps) = int (fst ir) + 1 \<and>
              (snd ir) ''title'' = Some (source_title (snd ps)) \<and>
              (snd ir) ''link'' = Some (source_url (snd ps)) \<and>
              (snd ir) ''snippet'' = Some (source_snippet (snd ps))"
  have step: "\<exists>y. summarize_entry ir = Inr y \<and> ?R ir y" if "ir \<in> set (enumerate 0 results)" for ir
  proof -
    obtain i r where ir: "ir = (i, r)" by (cases ir)
    with that have "r \<in> set results" by (auto simp: in_set_enumerate_eq)
    with assms obtain t l sn where "r ''title'' = Some t" "r ''link'' = Some l" "r ''snippet'' = Some sn"
      by blast
    then show ?thesis unfolding ir by (simp add: summarize_entry_def getitem_def)
  qed
  have "\<exists>ys. for_each summarize_entry (enumerate 0 results) = Inr ys \<and>
          list_all2 ?R (enumerate 0 results) ys"
    by (rule for_each_rel) (rule step)
  then obtain entries where run: "for_each summarize_entry (enumerate 0 results) = Inr entries"
    and rel: "list_all2 ?R (enumerate 0 results) entries"
    by blast
  from rel have len: "length entries = length results"
    by (auto dest: list_all2_lengthD)
  have nth: "?R (i, results ! i) (entries ! i)" if "i < length results" for i
    using rel that by (auto simp: list_all2_conv_all_nth nth_enumerate_eq)
  have bc: "build_context results = Inr (concat (map fst entries), map snd entries)"
    using run by (simp add: build_context_def)
  show ?thesis
  proof (intro exI conjI allI impI)
    show "build_context results = Inr (concat (map fst entries), map snd entries)" by (rule bc)
    show "length (map snd entries) = length results" using len by simp
  next
    fix i assume i: "i < length results"
    with nth [OF i] len
    show "source_id (map snd entries ! i) = int i + 1"
      and "(results ! i) ''title'' = Some (source_title (map snd entries ! i))"
      and "(results ! i) ''link'' = Some (source_url (map snd entries ! i))"
      and "(results ! i) ''snippet'' = Some (source_snippet (map snd entries ! i))"
      by simp_all
  qed
qed

lemma summarize_after_build:
  "build_context results = Inr (context, sources) \<Longrightarrow>
     \<exists>summary. summarize_findings chat q sqs results = Inr (summary, sources)"
  by (simp add: summarize_findings_def split: sum.splits)

text \<open>
  \<^bold>\<open>C2\<close>.  The lists passed to the summarizer are lists of search results, each with a
  title, a link and a snippet (every record the search client returns has them, see
  \<open>search_web_wellformed\<close>).  For such a list \<^verbatim>\<open>_summarize_findings\<close> returns normally,
  whatever the completion service does; the sources are as many as the results, and the
  \<open>i\<close>-th source has id \<open>i + 1\<close> and the title, link and snippet of the \<open>i\<close>-th result.
\<close>

theorem summarize_findings_sources:
  assumes "\<forall>r \<in> set results. \<exists>t l sn.
             r ''title'' = Some t \<and> r ''link'' = Some l \<and> r ''snippet'' = Some sn"
  shows "\<exists>summary sources.
           summarize_findings chat q sqs results = Inr (summary, sources) \<and>
           length sources = length results \<and>
           (\<forall>i < length results.
              source_id (sources ! i) = int i + 1 \<and>
              (results ! i) ''title'' = Some (source_title (sources ! i)) \<and>
              (results ! i) ''link'' = Some (source_url (sources ! i)) \<and>
              (results ! i) ''snippet'' = Some (source_snippet (sources ! i)))"
proof -
  from build_context_sources [OF assms] obtain ctx sources
    where bc: "build_context results = Inr (ctx, sources)"
      and len: "length sources = length results"
      and nth: "\<forall>i < length results.
              source_id (sources ! i) = int i + 1 \<and>
              (results ! i) ''title'' = Some (source_title (sources ! i)) \<and>
              (results ! i) ''link'' = Some (source_url (sources ! i)) \<and>
              (results ! i) ''snippet'' = Some (source_snippet (sources ! i))"
    by blast
  from summarize_after_build [OF bc] obtain summary
    where "summarize_findings chat q sqs results = Inr (summary, sources)" ..
  with len nth show ?thesis by (intro exI [of _ summary] exI [of _ sources] conjI)
qed


theorem summarize_findings_sources_witness:
  "\<exists>summary. summarize_findings (chat_replying ''Findings [Source 1].'') ''q'' [''q'']
       [search_result ''T'' ''https://t.org/a'' ''S'' ''t.org'' ''q'',
        search_result ''U'' ''https://u.org/b'' ''V'' ''u.org'' ''q'']
     = Inr (summary,
         [\<lparr>source_id = 1, source_title = ''T'', source_url = ''https://t.org/a'', source_snippet = ''S''\<rparr>,
          \<lparr>source_id = 2, source_title = ''U'', source_url = ''https://u.org/b'', source_snippet = ''V''\<rparr>])"
proof -
  let ?rs = "[search_result ''T'' ''https://t.org/a'' ''S'' ''t.org'' ''q'',
        search_result ''U'' ''https://u.org/b'' ''V'' ''u.org'' ''q'']"
  have "\<forall>r \<in> set ?rs. \<exists>t l sn. r ''title'' = Some t \<and> r ''link'' = Some l \<and> r ''snippet'' = Some sn"
    by (simp add: search_result_fields)
  from summarize_findings_sources [OF this, of "chat_replying ''Findings [Source 1].''" "''q''" "[''q'']"]
  obtain summary sources
    where run: "summarize_findings (chat_replying ''Findings [Source 1].'') ''q'' [''q''] ?rs
                  = Inr (summary, sources)"
      and len: "length sources = length ?rs"
      and nth: "\<forall>i < length ?rs.
              source_id (sources ! i) = int i + 1 \<and>
              (?rs ! i) ''title'' = Some (source_title (sources ! i)) \<and>
              (?rs ! i) ''link'' = Some (source_url (sources ! i)) \<and>
              (?rs ! i) ''snippet'' = Some (source_snippet (sources ! i))"
    by blast
  from len obtain a b where ab: "sources = [a, b]"
    by (cases sources; cases "tl sources") auto
  from nth have "source_id a = 1 \<and> source_title a = ''T'' \<and> source_url a = ''https://t.org/a'' \<and>
      source_snippet a = ''S''"
    unfolding ab by (elim allE [of _ 0]) (simp add: search_result_fields)
  moreover from nth have "source_id b = 2 \<and> source_title b = ''U'' \<and> source_url b = ''https://u.org/b'' \<and>
      source_snippet b = ''V''"
    unfolding ab by (elim allE [of _ 1]) (simp add: search_result_fields)
  ultimately have "a = \<lparr>source_id = 1, source_title = ''T'', source_url = ''https://t.org/a'', source_snippet = ''S''\<rparr>"
    and "b = \<lparr>source_id = 2, source_title = ''U'', source_url = ''https://u.org/b'', source_snippet = ''V''\<rparr>"
    by simp_all
  with run ab show ?thesis by simp
qed

text \<open>
  \<^bold>\<open>C5\<close>.  Once the context and the sources are built, a completion call that raises
  makes \<^verbatim>\<open>_summarize_findings\<close> return the fixed message with the sources built before
  the call.
\<close>

theorem summarize_findings_failure:
  assumes "build_context results = Inr (ctx, sources)"
    and "chat (summary_prompt q sqs ctx) = Inl e"
  shows "summarize_findings chat q sqs results =
           Inr (''Error generating summary. Please try again.'', sources)"
  using assms by (simp add: summarize_findings_def)

theorem summarize_findings_failure_witness:
  "summarize_findings (\<lambda>prompt. Inl (ExternalError ''timeout'')) ''q'' [''q'']
     [search_result ''T'' ''https://t.org/a'' ''S'' ''t.org'' ''q'']
   = Inr (''Error generating summary. Please try again.'',
       [\<lparr>source_id = 1, source_title = ''T'', source_url = ''https://t.org/a'', source_snippet = ''S''\<rparr>])"
proof -
  let ?rs = "[search_result ''T'' ''https://t.org/a'' ''S'' ''t.org'' ''q'']"
  let ?down = "\<lambda>prompt :: string. Inl (ExternalError ''timeout'') :: exn + string option list"
  obtain ctx where bc: "build_context ?rs = Inr (ctx,
       [\<lparr>source_id = 1, source_title = ''T'', source_url = ''https://t.org/a'', source_snippet = ''S''\<rparr>])"
    by (simp add: build_context_def summarize_entry_def getitem_def search_result_fields
        enumerate_eq_zip)
  have "?down (summary_prompt ''q'' [''q''] ctx) = Inl (ExternalError ''timeout'')" by simp
  from summarize_findings_failure [OF bc this] show ?thesis .
qed

section \<open>The result store\<close>

lemma store_results_returns: "store_results add clock rid q summ srcs = Inr ()"
  by (simp add: store_results_def split: sum.splits)

lemma search_all_store_irrelevant:
  "search_all (w\<lparr>collection_add := add\<rparr>) sub_qs m = search_all w sub_qs m"
proof -
  have "search_step (w\<lparr>collection_add := add\<rparr>) sub_qs m = search_step w sub_qs m"
    by (rule ext) (simp add: search_step_def split: prod.splits sum.splits json.splits)
  then show ?thesis by (simp add: search_all_def split: sum.splits)
qed

lemma conduct_research_store_irrelevant:
  "conduct_research (w\<lparr>collection_add := add\<rparr>) q m = conduct_research w q m"
  by (simp add: conduct_research_def Let_def store_results_returns search_all_store_irrelevant
      split: sum.splits prod.splits)

text \<open>
  \<^bold>\<open>C6\<close>.  When \<^verbatim>\<open>collection.add\<close> raises, \<^verbatim>\<open>_store_results\<close> returns normally; when
  \<^verbatim>\<open>collection.query\<close> raises, \<^verbatim>\<open>get_similar_research\<close> returns the empty list; and the
  outcome of a research request is the same whatever the store does, so a request is
  never aborted by it.
\<close>

theorem persistence_failures_swallowed:
  "((\<exists>e. add \<lparr>entry_document = summ, entry_research_id = rid, entry_question = q,
              entry_timestamp = clock, entry_source_count = length srcs, entry_id = rid\<rparr> = Inl e)
      \<longrightarrow> store_results add clock rid q summ srcs = Inr ()) \<and>
   ((\<exists>e. query q limit = Inl e) \<longrightarrow> get_similar_research query q limit = Inr Empty_list) \<and>
   conduct_research (w\<lparr>collection_add := add\<rparr>) q m = conduct_research w q m"
proof (intro conjI impI)
  show "store_results add clock rid q summ srcs = Inr ()"
    by (rule store_results_returns)
  show "get_similar_research query q limit = Inr Empty_list" if "\<exists>e. query q limit = Inl e"
    using that by (auto simp: get_similar_research_def)
  show "conduct_research (w\<lparr>collection_add := add\<rparr>) q m = conduct_research w q m"
    by (rule conduct_research_store_irrelevant)
qed

theorem persistence_failures_swallowed_witness:
  "store_results (collection_add offline_world) ''2024-01-01T00:00:00'' ''id-1'' ''q'' ''s'' []
     = Inr () \<and>
   get_similar_research (\<lambda>qs n. Inl (ExternalError ''offline'') :: exn + string list) ''q'' 3
     = Inr Empty_list \<and>
   conduct_research (offline_world\<lparr>collection_add := collection_add offline_world\<rparr>) ''q'' 3
     = conduct_research (offline_world\<lparr>collection_add := \<lambda>e. Inr ()\<rparr>) ''q'' 3"
proof -
  let ?add = "collection_add offline_world"
  let ?query = "\<lambda>(qs :: string) (n :: int). Inl (ExternalError ''offline'') :: exn + string list"
  have a: "\<exists>e. ?add \<lparr>entry_document = ''s'', entry_research_id = ''id-1'', entry_question = ''q'',
              entry_timestamp = ''2024-01-01T00:00:00'', entry_source_count = length ([] :: source list),
              entry_id = ''id-1''\<rparr> = Inl e"
    by (simp add: offline_world_def)
  have b: "\<exists>e. ?query ''q'' 3 = Inl e" by simp
  from persistence_failures_swallowed
    [of ?add "''s''" "''id-1''" "''q''" "''2024-01-01T00:00:00''" "[]" ?query 3
        "offline_world\<lparr>collection_add := \<lambda>e. Inr ()\<rparr>" 3] a b
  show ?thesis by simp
qed

section \<open>The orchestrator\<close>

lemma for_each_Inr:
  "for_each f xs = Inr ys \<Longrightarrow> list_all2 (\<lambda>x y. f x = Inr y) xs ys"
  by (induction xs arbitrary: ys) (auto split: sum.splits)

lemma for_each_Inl:
  "for_each f xs = Inl e \<Longrightarrow> \<exists>x \<in> set xs. f x = Inl e"
  by (induction xs) (auto split: sum.splits)

lemma search_web_total: "\<exists>rs. search_web w pq query n = Inr rs"
  using search_web_cases [of w pq query n] fallback_search_total [of w query n]
  by auto

lemma length_ddg_results: "length (ddg_results pq query ds) \<le> length ds"
  by (induction ds) (auto split: sum.splits option.splits)

lemma length_google_results: "length (google_results query gs) \<le> length gs"
  by (induction gs) (auto split: sum.splits option.splits)

lemma fallback_search_length:
  assumes "0 \<le> n" and "fallback_search w query n = Inr rs"
  shows "int (length rs) \<le> n"
proof (cases "\<exists>gs. google_tier w query n = Inr gs \<and> gs \<noteq> []")
  case True
  then obtain gs where gs: "google_tier w query n = Inr gs" "gs \<noteq> []" by blast
  with assms have "rs = gs" by (simp add: fallback_search_def)
  moreover from gs obtain ds where "gs = google_results query (slice_to ds n)"
    by (auto simp: google_tier_def split: sum.splits if_splits)
  ultimately have rs: "rs = google_results query (slice_to ds n)" by simp
  have "int (length (google_results query (slice_to ds n))) \<le> int (length (slice_to ds n))"
    using length_google_results [of query "slice_to ds n"] by simp
  also have "\<dots> \<le> n"
    using assms(1) by (rule length_slice_to_nonneg)
  finally show ?thesis using rs by simp
next
  case False
  then have "fallback_search w query n = generate_mock_results query n"
    by (auto simp: fallback_search_def split: sum.splits)
  with assms show ?thesis by (simp add: mock_length)
qed

lemma search_web_length:
  assumes "0 \<le> n" and "search_web w pq query n = Inr rs"
  shows "int (length rs) \<le> n"
  using search_web_cases [of w pq query n]
proof
  assume "\<exists>ds. ddg_tier w pq query n = Inr ds \<and> ds \<noteq> [] \<and> search_web w pq query n = Inr ds"
  with assms have "ddg_tier w pq query n = Inr rs" by auto
  then obtain ds where rs: "rs = ddg_results pq query (slice_to ds n)"
    by (auto simp: ddg_tier_def split: sum.splits)
  have "int (length (ddg_results pq query (slice_to ds n))) \<le> int (length (slice_to ds n))"
    using length_ddg_results [of pq query "slice_to ds n"] by simp
  also have "\<dots> \<le> n"
    using assms(1) by (rule length_slice_to_nonneg)
  finally show ?thesis using rs by simp
next
  assume "search_web w pq query n = fallback_search w query n"
  with assms show ?thesis by (simp add: fallback_search_length)
qed

lemma py_len_iter: "py_iter j = Inr items \<Longrightarrow> py_len j = Inr (int (length items))"
  by (cases j) auto

lemma search_step_string:
  assumes "py_len sub_qs = Inr k" and "k \<noteq> 0"
  shows "\<exists>rs. search_web (web_at w i q) (parse_qs w) q (m div k) = Inr rs \<and>
           search_step w sub_qs m (i, JString q) = Inr (q, rs)"
proof -
  from search_web_total obtain rs
    where "search_web (web_at w i q) (parse_qs w) q (m div k) = Inr rs" by blast
  with assms show ?thesis by (simp add: search_step_def floordiv_def)
qed

lemma search_step_Inr:
  assumes "search_step w sub_qs m (i, x) = Inr (q, rs)"
  shows "\<exists>n. search_web (web_at w i q) (parse_qs w) q n = Inr rs"
  using assms
  by (auto simp: search_step_def split: sum.splits json.splits)

lemma search_all_wellformed:
  assumes "search_all w sub_qs m = Inr searched" and "r \<in> set (concat (map snd searched))"
  shows "\<exists>t l sn. r ''title'' = Some t \<and> r ''link'' = Some l \<and> r ''snippet'' = Some sn"
proof -
  from assms(1) obtain items
    where run: "for_each (search_step w sub_qs m) (enumerate 0 items) = Inr searched"
    by (auto simp: search_all_def split: sum.splits)
  from assms(2) obtain q rs where qrs: "(q, rs) \<in> set searched" "r \<in> set rs" by auto
  then obtain j where j: "j < length searched" "searched ! j = (q, rs)"
    by (auto simp: in_set_conv_nth)
  obtain i x where ix: "enumerate 0 items ! j = (i, x)"
    by (cases "enumerate 0 items ! j")
  from for_each_Inr [OF run] j
  have "search_step w sub_qs m (enumerate 0 items ! j) = Inr (q, rs)"
    by (auto simp: list_all2_conv_all_nth)
  then have "search_step w sub_qs m (i, x) = Inr (q, rs)"
    by (simp add: ix)
  from search_step_Inr [OF this] obtain n
    where "search_web (web_at w i q) (parse_qs w) q n = Inr rs" ..
  from search_web_wellformed [OF this qrs(2)] show ?thesis .
qed

lemma conduct_research_returns:
  assumes "search_all w (break_down_question (chat_create w) (json_loads w) q) m = Inr searched"
  shows "\<exists>summ ctx srcs.
           build_context (concat (map snd searched)) = Inr (ctx, srcs) \<and>
           length srcs = length (concat (map snd searched)) \<and>
           conduct_research w q m =
             Inr \<lparr>resp_question = q,
                  resp_sub_questions = break_down_question (chat_create w) (json_loads w) q,
                  resp_summary = summ, resp_sources = srcs, resp_research_id = uuid4 w\<rparr>"
proof -
  let ?all = "concat (map snd searched)"
  have "\<forall>r \<in> set ?all. \<exists>t l sn. r ''title'' = Some t \<and> r ''link'' = Some l \<and> r ''snippet'' = Some sn"
    using search_all_wellformed [OF assms] by blast
  from build_context_sources [OF this] obtain ctx srcs
    where bc: "build_context ?all = Inr (ctx, srcs)" and len: "length srcs = length ?all"
    by blast
  from summarize_after_build [OF bc] obtain summ
    where "summarize_findings (chat_create w) q (map fst searched) ?all = Inr (summ, srcs)" ..
  with assms have "conduct_research w q m =
             Inr \<lparr>resp_question = q,
                  resp_sub_questions = break_down_question (chat_create w) (json_loads w) q,
                  resp_summary = summ, resp_sources = srcs, resp_research_id = uuid4 w\<rparr>"
    by (simp add: conduct_research_def Let_def store_results_returns)
  with bc len show ?thesis by blast
qed


lemma search_all_strings:
  assumes "qs \<noteq> []"
  shows "\<exists>rss. length rss = length qs \<and>
           (\<forall>i < length qs.
              search_web (web_at w i (qs ! i)) (parse_qs w) (qs ! i) (m div int (length qs))
                = Inr (rss ! i)) \<and>
           search_all w (JArray (map JString qs)) m = Inr (zip qs rss)"
proof -
  let ?sq = "JArray (map JString qs)"
  let ?n = "m div int (length qs)"
  let ?R = "\<lambda>isq y. \<exists>q. snd isq = JString q \<and> fst y = q \<and>
              search_web (web_at w (fst isq) q) (parse_qs w) q ?n = Inr (snd y)"
  have len: "py_len ?sq = Inr (int (length qs))" by simp
  from assms have nz: "int (length qs) \<noteq> 0" by simp
  have step: "\<exists>y. search_step w ?sq m isq = Inr y \<and> ?R isq y"
    if "isq \<in> set (enumerate 0 (map JString qs))" for isq
  proof -
    obtain i x where isq: "isq = (i, x)" by (cases isq)
    with that obtain q where x: "x = JString q"
      by (auto simp: in_set_enumerate_eq)
    from search_step_string [OF len nz, of w i q m] obtain rs
      where "search_web (web_at w i q) (parse_qs w) q ?n = Inr rs"
        and "search_step w ?sq m (i, JString q) = Inr (q, rs)"
      by blast
    then show ?thesis unfolding isq x by simp
  qed
  have "\<exists>ys. for_each (search_step w ?sq m) (enumerate 0 (map JString qs)) = Inr ys \<and>
          list_all2 ?R (enumerate 0 (map JString qs)) ys"
    by (rule for_each_rel) (rule step)
  then obtain searched
    where run: "for_each (search_step w ?sq m) (enumerate 0 (map JString qs)) = Inr searched"
      and rel: "list_all2 ?R (enumerate 0 (map JString qs)) searched"
    by blast
  from rel have slen: "length searched = length qs"
    by (auto dest: list_all2_lengthD)
  have nth: "fst (searched ! i) = qs ! i \<and>
      search_web (web_at w i (qs ! i)) (parse_qs w) (qs ! i) ?n = Inr (snd (searched ! i))"
    if "i < length qs" for i
    using rel that by (auto simp: list_all2_conv_all_nth nth_enumerate_eq)
  have zip: "zip qs (map snd searched) = searched"
    using slen nth by (intro nth_equalityI) (auto simp: prod_eq_iff)
  have all: "search_all w ?sq m = Inr (zip qs (map snd searched))"
    using run zip by (simp add: search_all_def)
  show ?thesis
  proof (intro exI [of _ "map snd searched"] conjI allI impI)
    show "length (map snd searched) = length qs" using slen by simp
    show "search_all w ?sq m = Inr (zip qs (map snd searched))" by (rule all)
  next
    fix i assume "i < length qs"
    with nth slen
    show "search_web (web_at w i (qs ! i)) (parse_qs w) (qs ! i) ?n = Inr (map snd searched ! i)"
      by simp
  qed
qed

lemma length_concat_bound:
  "(\<forall>rs \<in> set rss. int (length rs) \<le> n) \<Longrightarrow> int (length (concat rss)) \<le> int (length rss) * n"
  by (induction rss) (auto simp: algebra_simps)

lemma floor_share_bound:
  fixes k m :: int
  assumes "0 < k"
  shows "k * (m div k) \<le> m"
  using assms mult_div_mod_eq [of k m] pos_mod_sign [of k m] by linarith

text \<open>
  \<^bold>\<open>C4\<close> (amended).  When the decomposer returns a non-empty list \<open>qs\<close> of strings, the
  orchestrator calls \<^verbatim>\<open>_search_web\<close> for the \<open>i\<close>-th sub-question with the cap
  \<open>m div length qs\<close> (the floor of the quotient), each call returns a list, and the
  summarizer receives the concatenation of these lists in sub-question order; the request
  returns normally with one source per aggregated result.  For \<open>m \<ge> 0\<close> the aggregated
  list has at most \<open>m\<close> elements.
\<close>

theorem conduct_research_fan_out:
  assumes "break_down_question (chat_create w) (json_loads w) question = JArray (map JString qs)"
    and "qs \<noteq> []"
  shows "\<exists>rss. length rss = length qs \<and>
           (\<forall>i < length qs.
              search_web (web_at w i (qs ! i)) (parse_qs w) (qs ! i) (m div int (length qs))
                = Inr (rss ! i)) \<and>
           search_all w (JArray (map JString qs)) m = Inr (zip qs rss) \<and>
           (\<exists>summ ctx srcs.
              build_context (concat rss) = Inr (ctx, srcs) \<and>
              length srcs = length (concat rss) \<and>
              conduct_research w question m =
                Inr \<lparr>resp_question = question, resp_sub_questions = JArray (map JString qs),
                     resp_summary = summ, resp_sources = srcs, resp_research_id = uuid4 w\<rparr>) \<and>
           (0 \<le> m \<longrightarrow> int (length (concat rss)) \<le> m)"
proof -
  let ?k = "int (length qs)"
  from search_all_strings [OF assms(2), of w m] obtain rss
    where len: "length rss = length qs"
      and each: "\<forall>i < length qs.
              search_web (web_at w i (qs ! i)) (parse_qs w) (qs ! i) (m div ?k) = Inr (rss ! i)"
      and all: "search_all w (JArray (map JString qs)) m = Inr (zip qs rss)"
    by blast
  from len have snd_zip: "map snd (zip qs rss) = rss" by simp
  from all assms(1)
  have "search_all w (break_down_question (chat_create w) (json_loads w) question) m
          = Inr (zip qs rss)"
    by simp
  from conduct_research_returns [OF this]
  have resp: "\<exists>summ ctx srcs.
              build_context (concat rss) = Inr (ctx, srcs) \<and>
              length srcs = length (concat rss) \<and>
              conduct_research w question m =
                Inr \<lparr>resp_question = question, resp_sub_questions = JArray (map JString qs),
                     resp_summary = summ, resp_sources = srcs, resp_research_id = uuid4 w\<rparr>"
    unfolding snd_zip assms(1) .
  have bound: "0 \<le> m \<longrightarrow> int (length (concat rss)) \<le> m"
  proof
    assume m: "0 \<le> m"
    from assms(2) have k: "0 < ?k" by simp
    with m have n: "0 \<le> m div ?k" by (simp add: pos_imp_zdiv_nonneg_iff)
    have "\<forall>rs \<in> set rss. int (length rs) \<le> m div ?k"
    proof
      fix rs assume "rs \<in> set rss"
      then obtain i where i: "i < length rss" "rs = rss ! i"
        by (auto simp: in_set_conv_nth)
      with each len
      have "search_web (web_at w i (qs ! i)) (parse_qs w) (qs ! i) (m div ?k) = Inr rs"
        by simp
      from search_web_length [OF n this] show "int (length rs) \<le> m div ?k" .
    qed
    then have "int (length (concat rss)) \<le> int (length rss) * (m div ?k)"
      by (rule length_concat_bound)
    also have "\<dots> = ?k * (m div ?k)" using len by simp
    also have "\<dots> \<le> m" using k by (rule floor_share_bound)
    finally show "int (length (concat rss)) \<le> m" .
  qed
  from len each all resp bound show ?thesis
    by (intro exI [of _ rss] conjI)
qed


theorem conduct_research_fan_out_witness:
  "break_down_question
     (chat_replying ''[\"What is AI?\", \"Who uses AI?\"]'')
     (loads_only ''[\"What is AI?\", \"Who uses AI?\"]''
        (JArray [JString ''What is AI?'', JString ''Who uses AI?''])) ''What is AI?''
     = JArray (map JString [''What is AI?'', ''Who uses AI?'']) \<and>
   (0::int) \<le> 6 \<and> 6 div int (length [''What is AI?'', ''Who uses AI?'']) = 3 \<and>
   (\<exists>resp. conduct_research
        (offline_world
           \<lparr>chat_create := chat_replying ''[\"What is AI?\", \"Who uses AI?\"]'',
            json_loads := loads_only ''[\"What is AI?\", \"Who uses AI?\"]''
              (JArray [JString ''What is AI?'', JString ''Who uses AI?''])\<rparr>)
        ''What is AI?'' 6 = Inr resp \<and>
      int (length (resp_sources resp)) \<le> 6 \<and>
      resp_sub_questions resp = JArray [JString ''What is AI?'', JString ''Who uses AI?''])"
proof -
  let ?reply = "''[\"What is AI?\", \"Who uses AI?\"]''"
  let ?qs = "[''What is AI?'', ''Who uses AI?'']"
  let ?w = "offline_world
           \<lparr>chat_create := chat_replying ?reply,
            json_loads := loads_only ?reply (JArray [JString ''What is AI?'', JString ''Who uses AI?''])\<rparr>"
  have dec: "break_down_question (chat_replying ?reply)
      (loads_only ?reply (JArray [JString ''What is AI?'', JString ''Who uses AI?'']))
      ''What is AI?'' = JArray (map JString ?qs)"
    by (simp add: break_down_question_def chat_replying_def first_content_def strip_def
        is_space_def clean_content_def loads_only_def)
  then have dec': "break_down_question (chat_create ?w) (json_loads ?w) ''What is AI?''
      = JArray (map JString ?qs)"
    by simp
  have ne: "?qs \<noteq> []" by simp
  from conduct_research_fan_out [OF dec' ne, of 6]
  have "\<exists>resp. conduct_research ?w ''What is AI?'' 6 = Inr resp \<and>
      int (length (resp_sources resp)) \<le> 6 \<and>
      resp_sub_questions resp = JArray [JString ''What is AI?'', JString ''Who uses AI?'']"
  proof (elim exE conjE)
    fix rss summ ctx srcs
    assume "length srcs = length (concat rss)"
      and "conduct_research ?w ''What is AI?'' 6 =
                Inr \<lparr>resp_question = ''What is AI?'', resp_sub_questions = JArray (map JString ?qs),
                     resp_summary = summ, resp_sources = srcs, resp_research_id = uuid4 ?w\<rparr>"
      and "(0::int) \<le> 6 \<longrightarrow> int (length (concat rss)) \<le> 6"
    then show ?thesis by simp
  qed
  with dec show ?thesis by simp
qed

theorem conduct_research_fan_out_counterexample:
  "break_down_question (chat_create offline_world) (json_loads offline_world) ''climate change''
     = JArray (map JString [''climate change'']) \<and>
   map_sum id (length \<circ> concat \<circ> map snd)
     (search_all offline_world (JArray (map JString [''climate change''])) (- 1)) = Inr 2 \<and>
   map_sum id (length \<circ> resp_sources) (conduct_research offline_world ''climate change'' (- 1))
     = Inr 2 \<and>
   \<not> int 2 \<le> - 1"
  by (simp add: conduct_research_def break_down_question_def offline_world_def search_all_def
      search_step_def floordiv_def search_web_def ddg_tier_def fallback_search_def
      google_tier_def generate_mock_results_def topics_def climate_results_def lower_def
      lower_char_def upper_letters_def lower_letters_def slice_to_def ensure_format_def canned_def summarize_findings_def
      build_context_def summarize_entry_def getitem_def store_results_def enumerate_eq_zip
      Let_def)

lemma search_all_no_zero_division:
  "search_all w sub_qs m \<noteq> Inl ZeroDivisionError"
proof
  assume bad: "search_all w sub_qs m = Inl ZeroDivisionError"
  show False
  proof (cases "py_iter sub_qs")
    case (Inl e)
    then have "e = TypeError" by (cases sub_qs) auto
    with Inl bad show False by (simp add: search_all_def)
  next
    case (Inr items)
    with bad have "for_each (search_step w sub_qs m) (enumerate 0 items) = Inl ZeroDivisionError"
      by (simp add: search_all_def)
    from for_each_Inl [OF this] obtain i x
      where mem: "(i, x) \<in> set (enumerate 0 items)"
        and step: "search_step w sub_qs m (i, x) = Inl ZeroDivisionError"
      by auto
    from mem have "items \<noteq> []" by auto
    with py_len_iter [OF Inr] have len: "py_len sub_qs = Inr (int (length items))"
      and nz: "int (length items) \<noteq> 0"
      by simp_all
    show False
    proof (cases x)
      case (JString q)
      from search_step_string [OF len nz, of w i q m] step show False
        unfolding JString by auto
    qed (use step len nz in \<open>simp_all add: search_step_def floordiv_def\<close>)
  qed
qed

lemma conduct_research_no_zero_division:
  "conduct_research w q m \<noteq> Inl ZeroDivisionError"
proof (cases "search_all w (break_down_question (chat_create w) (json_loads w) q) m")
  case (Inl e)
  with search_all_no_zero_division [of w "break_down_question (chat_create w) (json_loads w) q" m]
  show ?thesis by (auto simp: conduct_research_def Let_def)
next
  case (Inr searched)
  from conduct_research_returns [OF this] show ?thesis by auto
qed

text \<open>
  \<^bold>\<open>C10\<close>.  When the decomposer returns the empty list, the search loop makes no step, so
  the quotient \<^verbatim>\<open>max_results // len(sub_questions)\<close> is not evaluated, and the request
  returns normally: the response holds the empty list of sub-questions, no source, a
  summary and the identifier drawn at entry.  No request, on any input, ends in a
  \<^verbatim>\<open>ZeroDivisionError\<close>.
\<close>

theorem conduct_research_empty_decomposition:
  assumes "break_down_question (chat_create w) (json_loads w) question = JArray []"
  shows "search_all w (JArray []) m = Inr [] \<and>
         (\<exists>summ. conduct_research w question m =
            Inr \<lparr>resp_question = question, resp_sub_questions = JArray [],
                 resp_summary = summ, resp_sources = [], resp_research_id = uuid4 w\<rparr>) \<and>
         conduct_research w' question' m' \<noteq> Inl ZeroDivisionError"
proof (intro conjI)
  show none: "search_all w (JArray []) m = Inr []"
    by (simp add: search_all_def)
  with assms
  have "search_all w (break_down_question (chat_create w) (json_loads w) question) m = Inr []"
    by simp
  from conduct_research_returns [OF this] assms
  show "\<exists>summ. conduct_research w question m =
            Inr \<lparr>resp_question = question, resp_sub_questions = JArray [],
                 resp_summary = summ, resp_sources = [], resp_research_id = uuid4 w\<rparr>"
    by auto
  show "conduct_research w' question' m' \<noteq> Inl ZeroDivisionError"
    by (rule conduct_research_no_zero_division)
qed

theorem conduct_research_empty_decomposition_witness:
  "break_down_question (chat_replying ''[]'') (loads_only ''[]'' (JArray [])) ''What is AI?''
     = JArray [] \<and>
   conduct_research
     (offline_world\<lparr>chat_create := chat_replying ''[]'', json_loads := loads_only ''[]'' (JArray [])\<rparr>)
     ''What is AI?'' 10
   = Inr \<lparr>resp_question = ''What is AI?'', resp_sub_questions = JArray [],
          resp_summary = ''[]'', resp_sources = [],
          resp_research_id = ''9f1c2d3e-0000-4000-8000-000000000001''\<rparr>"
proof -
  let ?w = "offline_world\<lparr>chat_create := chat_replying ''[]'', json_loads := loads_only ''[]'' (JArray [])\<rparr>"
  have dec: "break_down_question (chat_replying ''[]'') (loads_only ''[]'' (JArray [])) ''What is AI?''
     = JArray []"
    by (simp add: break_down_question_def chat_replying_def first_content_def strip_def
        is_space_def clean_content_def loads_only_def)
  then have "break_down_question (chat_create ?w) (json_loads ?w) ''What is AI?'' = JArray []"
    by simp
  from conduct_research_empty_decomposition [OF this, of 10 ?w "''What is AI?''" 10]
  obtain summ where run: "conduct_research ?w ''What is AI?'' 10 =
            Inr \<lparr>resp_question = ''What is AI?'', resp_sub_questions = JArray [],
                 resp_summary = summ, resp_sources = [], resp_research_id = uuid4 ?w\<rparr>"
    by blast
  have "summarize_findings (chat_replying ''[]'') ''What is AI?'' [] [] = Inr (''[]'', [])"
    by (simp add: summarize_findings_def build_context_def chat_replying_def first_content_def
        strip_def is_space_def)
  then have "conduct_research ?w ''What is AI?'' 10 =
            Inr \<lparr>resp_question = ''What is AI?'', resp_sub_questions = JArray [],
                 resp_summary = ''[]'', resp_sources = [], resp_research_id = uuid4 ?w\<rparr>"
    using dec by (simp add: conduct_research_def search_all_def store_results_returns)
  with run dec show ?thesis by (simp add: offline_world_def)
qed

end
